theory Spec2Isabelle
  imports Complex_Main "HOL-Library.Sublist"
begin

section \<open>JavaScript array and string primitives\<close>

text \<open>
  Arrays and strings are lists. \<open>lastIndexOf\<close> is \<open>Array.prototype.lastIndexOf\<close> and
  \<open>String.prototype.lastIndexOf\<close> with a one-character needle: the greatest index holding
  the element, or \<open>-1\<close>. \<open>slice\<close> is \<open>slice(start, end)\<close> with its clamping of
  negative and oversized indices.
\<close>

fun lastIndexOf :: "'a list \<Rightarrow> 'a \<Rightarrow> int" where
  "lastIndexOf [] x = -1"
| "lastIndexOf (y # ys) x =
     (let r = lastIndexOf ys x in if r \<ge> 0 then r + 1 else if y = x then 0 else -1)"

definition sliceIndex :: "nat \<Rightarrow> int \<Rightarrow> nat" where
  "sliceIndex n i = (if i < 0 then nat (max (int n + i) 0) else min (nat i) n)"

definition slice :: "'a list \<Rightarrow> int \<Rightarrow> int \<Rightarrow> 'a list" where
  "slice xs start fin = take (sliceIndex (length xs) fin - sliceIndex (length xs) start)
                             (drop (sliceIndex (length xs) start) xs)"

section \<open>Navigation stack (src/lib/navigation.ts)\<close>

datatype NavigationMode = Connect | Node | Breadcrumb

text \<open>
  \<open>breadcrumbIndex?: number\<close> is \<open>None\<close> when the argument is absent. The guard
  \<open>typeof breadcrumbIndex === 'number' && breadcrumbIndex >= 0 && breadcrumbIndex <
  currentStack.length && currentStack[breadcrumbIndex] === nextUrn\<close> is \<open>validBreadcrumb\<close>.
\<close>

definition validBreadcrumb :: "string list \<Rightarrow> string \<Rightarrow> int option \<Rightarrow> bool" where
  "validBreadcrumb currentStack nextUrn breadcrumbIndex =
     (case breadcrumbIndex of
        None \<Rightarrow> False
      | Some i \<Rightarrow> i \<ge> 0 \<and> i < int (length currentStack) \<and> currentStack ! nat i = nextUrn)"

definition getNextNavigationStack ::
  "string list \<Rightarrow> string \<Rightarrow> NavigationMode \<Rightarrow> int option \<Rightarrow> string list" where
  "getNextNavigationStack currentStack nextUrn mode breadcrumbIndex =
     (if mode = Connect then [nextUrn]
      else if mode = Breadcrumb then
        (case breadcrumbIndex of
           Some i \<Rightarrow>
             if validBreadcrumb currentStack nextUrn breadcrumbIndex
             then slice currentStack 0 (i + 1)
             else (let existingIndex = lastIndexOf currentStack nextUrn in
                   if existingIndex \<ge> 0 then slice currentStack 0 (existingIndex + 1)
                   else [nextUrn])
         | None \<Rightarrow>
             (let existingIndex = lastIndexOf currentStack nextUrn in
              if existingIndex \<ge> 0 then slice currentStack 0 (existingIndex + 1)
              else [nextUrn]))
      else if length currentStack = 0 then [nextUrn]
      else if currentStack ! (length currentStack - 1) = nextUrn then currentStack
      else (let existingIndex = lastIndexOf currentStack nextUrn in
            if existingIndex \<ge> 0 then slice currentStack 0 (existingIndex + 1)
            else currentStack @ [nextUrn]))"

section \<open>URN semantics (src/lib/urn.ts): parsing\<close>

text \<open>
  \<open>js_split c s\<close> is \<open>s.split(c)\<close> for a one-character separator: the pieces between the
  separators, \<open>[""]\<close> for the empty string, never an empty array.
\<close>

fun js_split :: "char \<Rightarrow> string \<Rightarrow> string list" where
  "js_split c [] = [[]]"
| "js_split c (x # xs) =
     (if x = c then [] # js_split c xs
      else (case js_split c xs of
              p # ps \<Rightarrow> (x # p) # ps
            | [] \<Rightarrow> [[x]]))"

definition startsWith :: "string \<Rightarrow> string \<Rightarrow> bool" where
  "startsWith s p = (take (length p) s = p)"

text \<open>
  \<open>urn.match(/^urn:li:([^:]+):/)\<close>: the string must begin with \<open>urn:li:\<close>; the group
  \<open>([^:]+)\<close> is greedy and takes every character up to the next colon, must not be empty,
  and a colon must follow it. \<open>matchUrnType\<close> returns the captured group \<open>match[1]\<close>, or
  \<open>None\<close> when the expression does not match.
\<close>

definition matchUrnType :: "string \<Rightarrow> string option" where
  "matchUrnType urn =
     (if startsWith urn ''urn:li:'' then
        (let rest = drop (length ''urn:li:'') urn;
             group1 = takeWhile (\<lambda>ch. ch \<noteq> CHR '':'') rest;
             after = dropWhile (\<lambda>ch. ch \<noteq> CHR '':'') rest
         in if group1 \<noteq> [] \<and> after \<noteq> [] then Some group1 else None)
      else None)"

definition parseUrnType :: "string \<Rightarrow> string" where
  "parseUrnType urn = (case matchUrnType urn of Some group1 \<Rightarrow> group1 | None \<Rightarrow> ''entity'')"

text \<open>
  \<open>parseUrnName\<close> reads element 0 of \<open>urn.split('#')\<close> and calls a method on it; were the
  array empty, that call would throw a \<open>TypeError\<close>. The model keeps that branch, so that
  "never throws" is a statement to prove and not a consequence of HOL's totality.
  \<open>urnParts[urnParts.length - 1] ?? urn\<close> falls back to the whole identifier when the
  array has no last element.
\<close>

datatype js_error = TypeError

definition parseUrnName :: "string \<Rightarrow> js_error + string" where
  "parseUrnName urn =
     (let hashParts = js_split CHR ''#'' urn in
      case hashParts of
        [] \<Rightarrow> Inl TypeError
      | beforeHash # _ \<Rightarrow>
          (let lastParen = lastIndexOf beforeHash CHR ''('';
               lastClose = lastIndexOf beforeHash CHR '')''
           in if lastParen \<ge> 0 \<and> lastClose > lastParen
              then Inr (slice beforeHash (lastParen + 1) lastClose)
              else (let urnParts = js_split CHR '':'' beforeHash
                    in Inr (if urnParts = [] then urn else last urnParts))))"


text \<open>The name as a plain string, for callers that build records from it.\<close>

definition urnName :: "string \<Rightarrow> string" where
  "urnName urn = (case parseUrnName urn of Inr n \<Rightarrow> n | Inl _ \<Rightarrow> urn)"

text \<open>
  Vocabulary for the properties of \<open>parseUrnName\<close>: the part of the identifier before the
  first \<open>#\<close> (element 0 of the split), and the test \<open>lastParen >= 0 && lastClose >
  lastParen\<close> on a string.
\<close>

definition beforeHashOf :: "string \<Rightarrow> string" where
  "beforeHashOf urn = takeWhile (\<lambda>ch. ch \<noteq> CHR ''#'') urn"

definition hasParenGroup :: "string \<Rightarrow> bool" where
  "hasParenGroup b =
     (lastIndexOf b CHR ''('' \<ge> 0 \<and> lastIndexOf b CHR '')'' > lastIndexOf b CHR ''('')"

section \<open>JSON values and the JavaScript operations on them\<close>

text \<open>
  A parsed JSON value. An object is the list of its entries in the order in which
  \<open>Object.entries\<close> and \<open>Object.values\<close> enumerate them; a property read takes the entry with
  that key. The numeric payload of a number is never inspected by the code modelled here.
\<close>

datatype json =
    JNull
  | JBool bool
  | JNum int
  | JStr string
  | JArr "json list"
  | JObj "(string \<times> json) list"

text \<open>\<open>typeof v === 'object'\<close> holds of \<open>null\<close>, of arrays and of objects.\<close>

fun typeofObject :: "json \<Rightarrow> bool" where
  "typeofObject JNull = True"
| "typeofObject (JArr _) = True"
| "typeofObject (JObj _) = True"
| "typeofObject _ = False"

text \<open>Truthiness: \<open>null\<close>, \<open>false\<close>, \<open>0\<close> and the empty string are falsy.\<close>

fun truthy :: "json \<Rightarrow> bool" where
  "truthy JNull = False"
| "truthy (JBool b) = b"
| "truthy (JNum n) = (n \<noteq> 0)"
| "truthy (JStr s) = (s \<noteq> [])"
| "truthy (JArr _) = True"
| "truthy (JObj _) = True"

text \<open>
  \<open>getProp v k\<close> is the property read \<open>v.k\<close> (or \<open>v[k]\<close>) on a value other than \<open>null\<close>;
  \<open>None\<close> is \<open>undefined\<close>. None of the keys read by this program is a property of an
  array, a string, a number or a boolean, so only objects answer. Reading a property of
  \<open>null\<close> throws, which each caller models where it can happen.
\<close>

fun getProp :: "json \<Rightarrow> string \<Rightarrow> json option" where
  "getProp (JObj kvs) k = map_of kvs k"
| "getProp _ k = None"

text \<open>\<open>Object.values\<close> of an object or an array (the only values it is applied to).\<close>

fun objectValues :: "json \<Rightarrow> json list" where
  "objectValues (JObj kvs) = map snd kvs"
| "objectValues (JArr items) = items"
| "objectValues _ = []"

text \<open>\<open>Array.isArray(v) ? v : undefined\<close>, on a property that may be absent.\<close>

fun asArray :: "json option \<Rightarrow> json list option" where
  "asArray (Some (JArr items)) = Some items"
| "asArray _ = None"

text \<open>\<open>typeof v === 'string' && v\<close>: the string when the value is a non-empty string.\<close>

fun truthyString :: "json option \<Rightarrow> string option" where
  "truthyString (Some (JStr s)) = (if s \<noteq> [] then Some s else None)"
| "truthyString _ = None"

text \<open>\<open>typeof v === 'string' ? v : undefined\<close>.\<close>

fun asString :: "json option \<Rightarrow> string option" where
  "asString (Some (JStr s)) = Some s"
| "asString _ = None"

text \<open>Decimal rendering of a non-negative integer, as a template literal prints it.\<close>

definition digitChar :: "nat \<Rightarrow> char" where
  "digitChar d = char_of (of_char CHR ''0'' + d)"

fun showNat :: "nat \<Rightarrow> string" where
  "showNat n = (if n < 10 then [digitChar n] else showNat (n div 10) @ [digitChar (n mod 10)])"

declare showNat.simps [simp del]

text \<open>
  A \<open>Set<string>\<close> is the list of its members in insertion order, without repetition;
  \<open>setAdd\<close> is \<open>Set.prototype.add\<close> and \<open>setFrom\<close> is \<open>new Set(iterable)\<close>. A \<open>Map\<close> is the
  list of its entries in insertion order; \<open>mapSet\<close> is \<open>Map.prototype.set\<close>, which replaces
  the value of a key already present where it stands and appends a new key.
\<close>

definition setAdd :: "'a \<Rightarrow> 'a list \<Rightarrow> 'a list" where
  "setAdd x xs = (if x \<in> set xs then xs else xs @ [x])"

definition setFrom :: "'a list \<Rightarrow> 'a list" where
  "setFrom xs = fold setAdd xs []"

fun mapSet :: "'k \<Rightarrow> 'v \<Rightarrow> ('k \<times> 'v) list \<Rightarrow> ('k \<times> 'v) list" where
  "mapSet k v [] = [(k, v)]"
| "mapSet k v (p # ps) = (if fst p = k then (k, v) # ps else p # mapSet k v ps)"

section \<open>URN semantics (src/lib/urn.ts): scanning JSON\<close>

fun extractUrnsFromJson :: "json \<Rightarrow> string list \<Rightarrow> string list" where
  "extractUrnsFromJson (JStr s) results =
     (if startsWith s ''urn:li:'' then setAdd s results else results)"
| "extractUrnsFromJson (JArr items) results = fold extractUrnsFromJson items results"
| "extractUrnsFromJson (JObj kvs) results = fold extractUrnsFromJson (map snd kvs) results"
| "extractUrnsFromJson JNull results = results"
| "extractUrnsFromJson (JBool b) results = results"
| "extractUrnsFromJson (JNum n) results = results"

text \<open>
  \<open>addAspectGroup\<close> is the closure of that name inside \<open>extractAspectUrnGroups\<close>, with the
  map it updates passed explicitly.
\<close>

definition addAspectGroup ::
  "string \<Rightarrow> json \<Rightarrow> (string \<times> string list) list \<Rightarrow> (string \<times> string list) list" where
  "addAspectGroup label v groups =
     (let urns = extractUrnsFromJson v [] in
      if length urns > 0 then mapSet label urns groups else groups)"

text \<open>
  The label of an aspect in the list shape: \<open>label\<close>, else \<open>name\<close>, else \<open>aspectName\<close> (each
  only when a non-empty string), else \<open>aspect_N\<close> with \<open>N\<close> the position counted from 1.
\<close>

definition listAspectLabel :: "json \<Rightarrow> nat \<Rightarrow> string" where
  "listAspectLabel aspectRecord index =
     (case truthyString (getProp aspectRecord ''label'') of
        Some l \<Rightarrow> l
      | None \<Rightarrow>
         (case truthyString (getProp aspectRecord ''name'') of
            Some l \<Rightarrow> l
          | None \<Rightarrow>
             (case truthyString (getProp aspectRecord ''aspectName'') of
                Some l \<Rightarrow> l
              | None \<Rightarrow> ''aspect_'' @ showNat (index + 1))))"

text \<open>
  The label of an aspect in the map shape: \<open>label\<close>, else \<open>name\<close>, else the entry's key when
  not empty, else \<open>aspect_N\<close>. The \<open>aspectName\<close> field is not read on this path.
\<close>

definition mapAspectLabel :: "string \<Rightarrow> json \<Rightarrow> nat \<Rightarrow> string" where
  "mapAspectLabel key valueRecord index =
     (case truthyString (getProp valueRecord ''label'') of
        Some l \<Rightarrow> l
      | None \<Rightarrow>
         (case truthyString (getProp valueRecord ''name'') of
            Some l \<Rightarrow> l
          | None \<Rightarrow> if key \<noteq> [] then key else ''aspect_'' @ showNat (index + 1)))"

text \<open>The two \<open>forEach\<close> callbacks, applied to an element and its index.\<close>

definition listAspectStep ::
  "json \<times> nat \<Rightarrow> (string \<times> string list) list \<Rightarrow> (string \<times> string list) list" where
  "listAspectStep p groups =
     (case p of (aspect, index) \<Rightarrow>
        if \<not> truthy aspect \<or> \<not> typeofObject aspect then groups
        else addAspectGroup (listAspectLabel aspect index) aspect groups)"

definition mapAspectStep ::
  "(string \<times> json) \<times> nat \<Rightarrow> (string \<times> string list) list \<Rightarrow> (string \<times> string list) list" where
  "mapAspectStep p groups =
     (case p of ((key, v), index) \<Rightarrow>
        if truthy v \<and> typeofObject v
        then addAspectGroup (mapAspectLabel key v index) v groups
        else groups)"

text \<open>\<open>xs.forEach((x, index) => ...)\<close> visits the elements paired with their indices.\<close>

definition withIndex :: "'a list \<Rightarrow> ('a \<times> nat) list" where
  "withIndex xs = zip xs [0 ..< length xs]"

definition extractAspectUrnGroups :: "json \<Rightarrow> (string \<times> string list) list" where
  "extractAspectUrnGroups raw =
     (if \<not> truthy raw \<or> \<not> typeofObject raw then []
      else (case getProp raw ''aspects'' of
              None \<Rightarrow> []
            | Some aspects \<Rightarrow>
                if \<not> truthy aspects then []
                else (case aspects of
                        JArr items \<Rightarrow> fold listAspectStep (withIndex items) []
                      | JObj kvs \<Rightarrow> fold mapAspectStep (withIndex kvs) []
                      | _ \<Rightarrow> [])))"

section \<open>Data model (src/lib/types.ts)\<close>

text \<open>
  \<open>DatahubObject\<close> has the fields \<open>id\<close>, \<open>type\<close>, \<open>name\<close> and \<open>raw\<close>, and
  \<open>RelationshipEdge\<close> the fields \<open>sourceId\<close>, \<open>targetId\<close> and \<open>type\<close>; the field names that
  would clash with constants of HOL or with each other carry a prefix.
\<close>

record DatahubObject =
  obj_id :: string
  obj_type :: string
  obj_name :: string
  obj_raw :: json

record RelationshipEdge =
  sourceId :: string
  targetId :: string
  edgeType :: string

section \<open>Catalog client (src/lib/datahubClient.ts)\<close>

text \<open>
  What can be thrown: a \<open>DatahubApiError\<close> with its fields \<open>message\<close>, \<open>status\<close>,
  \<open>endpoint\<close>, \<open>attemptedEndpoints\<close> and \<open>details\<close> (the last four optional), or another error (a
  \<open>TypeError\<close> from a rejected \<open>fetch\<close> or from reading a property of \<open>null\<close>, a
  \<open>SyntaxError\<close> from \<open>response.json()\<close>) with its message.
\<close>

record api_error =
  err_message :: string
  err_status :: "nat option"
  err_endpoint :: "string option"
  err_attemptedEndpoints :: "string list option"
  err_details :: "string option"

datatype error_kind = TypeErrorKind | SyntaxErrorKind

datatype thrown = DatahubApiError api_error | OtherError error_kind string

text \<open>
  The network is a function from the request (the address and the headers sent) to what
  \<open>fetch\<close> does with it: reject with a message, or answer with a response, of which the
  client reads \<open>ok\<close>, \<open>status\<close>, \<open>statusText\<close>, the body as text, and the body parsed as JSON
  (or the message of the parse error). Within one navigation action a request is answered
  the same way each time it is made.
\<close>

record http_response =
  resp_ok :: bool
  resp_status :: nat
  resp_statusText :: string
  resp_text :: string
  resp_json :: "string + json"

datatype fetch_result = Rejected string | Responded http_response

type_synonym network = "string \<Rightarrow> (string \<times> string) list \<Rightarrow> fetch_result"

text \<open>
  \<open>String.prototype.trim\<close> on a string read as its UTF-8 bytes: the white space and line
  terminator characters of ECMAScript (U+0009 to U+000D, U+0020, U+00A0, U+1680, U+2000 to
  U+200A, U+2028, U+2029, U+202F, U+205F, U+3000 and U+FEFF) are removed from both ends.
\<close>

definition whiteSpaceCodes :: "string list" where
  "whiteSpaceCodes =
     [[CHR 0x09], [CHR 0x0A], [CHR 0x0B], [CHR 0x0C], [CHR 0x0D], [CHR 0x20],
      [CHR 0xC2, CHR 0xA0],
      [CHR 0xE1, CHR 0x9A, CHR 0x80],
      [CHR 0xE2, CHR 0x80, CHR 0x80], [CHR 0xE2, CHR 0x80, CHR 0x81],
      [CHR 0xE2, CHR 0x80, CHR 0x82], [CHR 0xE2, CHR 0x80, CHR 0x83],
      [CHR 0xE2, CHR 0x80, CHR 0x84], [CHR 0xE2, CHR 0x80, CHR 0x85],
      [CHR 0xE2, CHR 0x80, CHR 0x86], [CHR 0xE2, CHR 0x80, CHR 0x87],
      [CHR 0xE2, CHR 0x80, CHR 0x88], [CHR 0xE2, CHR 0x80, CHR 0x89],
      [CHR 0xE2, CHR 0x80, CHR 0x8A],
      [CHR 0xE2, CHR 0x80, CHR 0xA8], [CHR 0xE2, CHR 0x80, CHR 0xA9],
      [CHR 0xE2, CHR 0x80, CHR 0xAF],
      [CHR 0xE2, CHR 0x81, CHR 0x9F],
      [CHR 0xE3, CHR 0x80, CHR 0x80],
      [CHR 0xEF, CHR 0xBB, CHR 0xBF]]"

text \<open>The length of the code, among the given ones, that the string begins with; 0 if none.\<close>

definition leadingLength :: "string list \<Rightarrow> string \<Rightarrow> nat" where
  "leadingLength codes s =
     (case find (\<lambda>w. w \<noteq> [] \<and> startsWith s w) codes of
        Some w \<Rightarrow> length w
      | None \<Rightarrow> 0)"

function dropLeading :: "string list \<Rightarrow> string \<Rightarrow> string" where
  "dropLeading codes s =
     (if leadingLength codes s = 0 then s
      else dropLeading codes (drop (leadingLength codes s) s))"
  by pat_completeness auto
termination
proof (relation "measure (\<lambda>(codes, s). length s)")
  show "wf (measure (\<lambda>(codes, s). length s))" by simp
next
  fix codes :: "string list" and s :: string
  assume a: "leadingLength codes s \<noteq> 0"
  then obtain w where "find (\<lambda>w. w \<noteq> [] \<and> startsWith s w) codes = Some w"
    by (auto simp: leadingLength_def split: option.splits)
  then have "w \<noteq> [] \<and> startsWith s w"
    by (auto simp: find_Some_iff)
  then have "s \<noteq> []" by (auto simp: startsWith_def)
  with a show "((codes, drop (leadingLength codes s) s), (codes, s))
      \<in> measure (\<lambda>(codes, s). length s)"
    by simp
qed

declare dropLeading.simps [simp del]

definition trim :: "string \<Rightarrow> string" where
  "trim s = rev (dropLeading (map rev whiteSpaceCodes) (rev (dropLeading whiteSpaceCodes s)))"

text \<open>
  \<open>encodeURIComponent\<close> on a string read as its UTF-8 bytes: the unreserved characters
  stand for themselves, every other byte becomes \<open>%XX\<close>.
\<close>

definition hexDigit :: "nat \<Rightarrow> char" where
  "hexDigit d = (if d < 10 then char_of (of_char CHR ''0'' + d)
                 else char_of (of_char CHR ''A'' + (d - 10)))"

definition isUriUnreserved :: "char \<Rightarrow> bool" where
  "isUriUnreserved ch =
     (ch \<in> set ''ABCDEFGHIJKLMNOPQRSTUVWXYZabcdefghijklmnopqrstuvwxyz0123456789-_.!~*''
      \<or> ch = CHR 0x27 \<or> ch = CHR ''('' \<or> ch = CHR '')'')"

definition encodeURIComponent :: "string \<Rightarrow> string" where
  "encodeURIComponent s =
     concat (map (\<lambda>ch. if isUriUnreserved ch then [ch]
                        else [CHR ''%'', hexDigit (of_char ch div 16), hexDigit (of_char ch mod 16)])
                 s)"

text \<open>\<open>xs.join(sep)\<close>.\<close>

fun js_join :: "string \<Rightarrow> string list \<Rightarrow> string" where
  "js_join sep [] = []"
| "js_join sep [x] = x"
| "js_join sep (x # y # ys) = x @ sep @ js_join sep (y # ys)"

definition LEGACY_RELATIONSHIP_TYPES :: string where
  "LEGACY_RELATIONSHIP_TYPES =
     js_join '',''
       [''DownstreamOf'', ''UpstreamOf'', ''Consumes'', ''Produces'', ''DependsOn'',
        ''Contains'', ''OwnedBy'', ''ParentOf'', ''IsPartOf'', ''HasPart'',
        ''SchemaFieldOf'', ''InputFields'', ''OutputFields'']"

definition buildHeaders :: "string \<Rightarrow> (string \<times> string) list" where
  "buildHeaders token =
     (if token \<noteq> [] \<and> length (trim token) > 0
      then [(''Authorization'', ''Bearer '' @ trim token)]
      else [])"

definition fetchJson :: "network \<Rightarrow> string \<Rightarrow> string \<Rightarrow> string \<Rightarrow> thrown + json" where
  "fetchJson fetch token baseUrl path =
     (case fetch (baseUrl @ path) (buildHeaders token) of
        Rejected msg \<Rightarrow> Inl (OtherError TypeErrorKind msg)
      | Responded response \<Rightarrow>
          if \<not> resp_ok response then
            Inl (DatahubApiError
                  \<lparr> err_message = ''HTTP '' @ showNat (resp_status response) @ '' for '' @ path,
                    err_status = Some (resp_status response),
                    err_endpoint = Some path,
                    err_attemptedEndpoints = None,
                    err_details = Some (if resp_text response \<noteq> [] then resp_text response
                                    else resp_statusText response) \<rparr>)
          else (case resp_json response of
                  Inl msg \<Rightarrow> Inl (OtherError SyntaxErrorKind msg)
                | Inr parsed \<Rightarrow> Inr parsed))"

text \<open>
  \<open>extractRelatedUrn\<close>: the first of the candidate keys whose value is a string beginning
  with \<open>urn:li:\<close>. Reading a key of \<open>null\<close> throws.
\<close>

fun firstUrnUnder :: "json \<Rightarrow> string list \<Rightarrow> string option" where
  "firstUrnUnder item [] = None"
| "firstUrnUnder item (key # keys) =
     (case asString (getProp item key) of
        Some v \<Rightarrow> if startsWith v ''urn:li:'' then Some v else firstUrnUnder item keys
      | None \<Rightarrow> firstUrnUnder item keys)"

definition extractRelatedUrn :: "json \<Rightarrow> thrown + string option" where
  "extractRelatedUrn item =
     (if item = JNull then Inl (OtherError TypeErrorKind ''Cannot read properties of null'')
      else Inr (firstUrnUnder item [''entity'', ''urn'', ''entityUrn'', ''relatedUrn'']))"

text \<open>\<open>a ?? b\<close> on property reads: \<open>undefined\<close> and \<open>null\<close> give way to \<open>b\<close>.\<close>

definition nullish :: "json option \<Rightarrow> bool" where
  "nullish v = (v = None \<or> v = Some JNull)"

definition extractRelationshipType :: "json \<Rightarrow> string" where
  "extractRelationshipType item =
     (let rawType =
        (if \<not> nullish (getProp item ''relationshipType'') then getProp item ''relationshipType''
         else if \<not> nullish (getProp item ''type'') then getProp item ''type''
         else getProp item ''relationship'')
      in case asString rawType of Some t \<Rightarrow> t | None \<Rightarrow> ''related_to'')"

definition extractRelationshipItems :: "json \<Rightarrow> thrown + json list" where
  "extractRelationshipItems response =
     (if response = JNull then Inl (OtherError TypeErrorKind ''Cannot read properties of null'')
      else (case asArray (getProp response ''relationships'') of
              Some items \<Rightarrow> Inr items
            | None \<Rightarrow>
               (case asArray (getProp response ''entities'') of
                  Some items \<Rightarrow> Inr items
                | None \<Rightarrow>
                   (case asArray (getProp response ''value'') of
                      Some items \<Rightarrow> Inr items
                    | None \<Rightarrow>
                       (case asArray (getProp response ''elements'') of
                          Some items \<Rightarrow> Inr items
                        | None \<Rightarrow> Inr [])))))"

text \<open>
  The error thrown once every endpoint has failed: it carries the attempted endpoints, and
  the status, endpoint and details of the last failure when that was a
  \<open>DatahubApiError\<close>.
\<close>

definition exhausted :: "string \<Rightarrow> string list \<Rightarrow> thrown option \<Rightarrow> thrown" where
  "exhausted msg attempts lastError =
     (case lastError of
        Some (DatahubApiError e) \<Rightarrow>
          DatahubApiError \<lparr> err_message = msg, err_status = err_status e,
                            err_endpoint = err_endpoint e,
                            err_attemptedEndpoints = Some attempts,
                            err_details = err_details e \<rparr>
      | _ \<Rightarrow>
          DatahubApiError \<lparr> err_message = msg, err_status = None, err_endpoint = None,
                            err_attemptedEndpoints = Some attempts, err_details = None \<rparr>)"

definition entityAttempts :: "string \<Rightarrow> string list" where
  "entityAttempts urn =
     (let encodedUrn = encodeURIComponent urn in
      [''/openapi/entities/v1/latest?urns='' @ encodedUrn @ ''&withSystemMetadata=false'',
       ''/openapi/entities/v1/latest?urns='' @ encodedUrn,
       ''/entitiesV2/'' @ encodedUrn])"

text \<open>The body of the \<open>try\<close> in \<open>fetchEntity\<close> after the response has been read.\<close>

definition entityOfResponse :: "string \<Rightarrow> json \<Rightarrow> DatahubObject" where
  "entityOfResponse urn parsed =
     (let topLevel = (if parsed = JNull then JObj [] else parsed);
          valueOrTop = (if nullish (getProp topLevel ''value'') then topLevel
                        else (case getProp topLevel ''value'' of Some v \<Rightarrow> v | None \<Rightarrow> topLevel));
          responseRecord =
            (case getProp topLevel ''responses'' of
               Some responses \<Rightarrow>
                 if truthy responses \<and> typeofObject responses
                 then (case objectValues responses of
                         [] \<Rightarrow> JObj []
                       | v # _ \<Rightarrow> if v = JNull then JObj [] else v)
                 else valueOrTop
             | None \<Rightarrow> valueOrTop);
          entityUrn = (case asString (getProp responseRecord ''urn'') of
                         Some u \<Rightarrow> u
                       | None \<Rightarrow> urn)
      in \<lparr> obj_id = entityUrn, obj_type = parseUrnType entityUrn,
            obj_name = urnName entityUrn, obj_raw = responseRecord \<rparr>)"

text \<open>
  The \<open>for\<close> loop over the endpoints: the first endpoint that answers decides; a failure is
  remembered as \<open>lastError\<close> and the next endpoint is tried.
\<close>

fun entityLoop ::
  "(string \<Rightarrow> thrown + json) \<Rightarrow> string \<Rightarrow> string list \<Rightarrow> thrown option
     \<Rightarrow> thrown option + DatahubObject" where
  "entityLoop fetchPath urn [] lastError = Inl lastError"
| "entityLoop fetchPath urn (endpoint # rest) lastError =
     (case fetchPath endpoint of
        Inr parsed \<Rightarrow> Inr (entityOfResponse urn parsed)
      | Inl e \<Rightarrow> entityLoop fetchPath urn rest (Some e))"

definition fetchEntity :: "network \<Rightarrow> string \<Rightarrow> string \<Rightarrow> string \<Rightarrow> thrown + DatahubObject" where
  "fetchEntity fetch token baseUrl urn =
     (let attempts = entityAttempts urn in
      case entityLoop (fetchJson fetch token baseUrl) urn attempts None of
        Inr entity \<Rightarrow> Inr entity
      | Inl lastError \<Rightarrow> Inl (exhausted ''Failed to fetch entity from GMS.'' attempts lastError))"

datatype direction = INCOMING | OUTGOING

fun directionName :: "direction \<Rightarrow> string" where
  "directionName INCOMING = ''INCOMING''"
| "directionName OUTGOING = ''OUTGOING''"

record related =
  rel_urn :: string
  rel_type :: string

definition relationshipAttempts :: "string \<Rightarrow> direction \<Rightarrow> string list" where
  "relationshipAttempts urn dir =
     (let encodedUrn = encodeURIComponent urn;
          encodedTypes = encodeURIComponent LEGACY_RELATIONSHIP_TYPES in
      [''/openapi/relationships/v1/?urn='' @ encodedUrn @ ''&direction='' @ directionName dir
         @ ''&start=0&count=100'',
       ''/openapi/relationships/v1?urn='' @ encodedUrn @ ''&direction='' @ directionName dir
         @ ''&start=0&count=100'',
       ''/relationships?urn='' @ encodedUrn @ ''&direction='' @ directionName dir
         @ ''&types='' @ encodedTypes @ ''&start=0&count=100''])"

text \<open>
  The \<open>map\<close> and \<open>filter\<close> over the items: an item without a related identifier is dropped;
  a \<open>null\<close> item makes the callback throw, which ends the whole \<open>try\<close> block.
\<close>

fun relatedOfItems :: "json list \<Rightarrow> thrown + related list" where
  "relatedOfItems [] = Inr []"
| "relatedOfItems (item # items) =
     (case extractRelatedUrn item of
        Inl e \<Rightarrow> Inl e
      | Inr found \<Rightarrow>
         (case relatedOfItems items of
            Inl e \<Rightarrow> Inl e
          | Inr rest \<Rightarrow>
             (case found of
                None \<Rightarrow> Inr rest
              | Some u \<Rightarrow>
                  Inr (\<lparr> rel_urn = u, rel_type = extractRelationshipType item \<rparr> # rest))))"

definition relationshipsOfResponse :: "json \<Rightarrow> thrown + related list" where
  "relationshipsOfResponse responseJson =
     (case extractRelationshipItems responseJson of
        Inl e \<Rightarrow> Inl e
      | Inr items \<Rightarrow> relatedOfItems items)"

fun relationshipLoop ::
  "(string \<Rightarrow> thrown + json) \<Rightarrow> string list \<Rightarrow> thrown option
     \<Rightarrow> thrown option + related list" where
  "relationshipLoop fetchPath [] lastError = Inl lastError"
| "relationshipLoop fetchPath (endpoint # rest) lastError =
     (case fetchPath endpoint of
        Inl e \<Rightarrow> relationshipLoop fetchPath rest (Some e)
      | Inr responseJson \<Rightarrow>
         (case relationshipsOfResponse responseJson of
            Inl e \<Rightarrow> relationshipLoop fetchPath rest (Some e)
          | Inr items \<Rightarrow> Inr items))"

definition fetchRelationships ::
  "network \<Rightarrow> string \<Rightarrow> string \<Rightarrow> string \<Rightarrow> direction \<Rightarrow> thrown + related list" where
  "fetchRelationships fetch token baseUrl urn dir =
     (let attempts = relationshipAttempts urn dir in
      case relationshipLoop (fetchJson fetch token baseUrl) attempts None of
        Inr items \<Rightarrow> Inr items
      | Inl lastError \<Rightarrow>
          Inl (exhausted ''Failed to fetch relationships from GMS.'' attempts lastError))"

section \<open>The rules as the specification words them\<close>

text \<open>
  Definitions that follow the specification's sentences, to be compared with the
  definitions taken from the code.
\<close>

definition wrapperNames :: "string list" where
  "wrapperNames = [''relationships'', ''entities'', ''value'', ''elements'']"

text \<open>The items of the first wrapper field that holds a list, empty or not.\<close>

fun firstListField :: "json \<Rightarrow> string list \<Rightarrow> json list" where
  "firstListField response [] = []"
| "firstListField response (w # ws) =
     (case asArray (getProp response w) of
        Some items \<Rightarrow> items
      | None \<Rightarrow> firstListField response ws)"

text \<open>
  The items of the first wrapper field that holds a populated list, that is a list with at
  least one item; the empty list when there is none.
\<close>

fun firstPopulatedListField :: "json \<Rightarrow> string list \<Rightarrow> json list" where
  "firstPopulatedListField response [] = []"
| "firstPopulatedListField response (w # ws) =
     (case asArray (getProp response w) of
        Some (item # items) \<Rightarrow> item # items
      | _ \<Rightarrow> firstPopulatedListField response ws)"

text \<open>The first candidate that is present, else the fallback.\<close>

fun firstPresent :: "string option list \<Rightarrow> string \<Rightarrow> string" where
  "firstPresent [] fallback = fallback"
| "firstPresent (Some l # cs) fallback = l"
| "firstPresent (None # cs) fallback = firstPresent cs fallback"

text \<open>A structural key counts when it is not the empty string.\<close>

definition presentKey :: "string \<Rightarrow> string option" where
  "presentKey key = (if key \<noteq> [] then Some key else None)"

text \<open>
  The single priority order of the specification: an explicit label field, a name field,
  an aspect-name field, the structural key (when the aspect has one), the positional
  fallback.
\<close>

definition claimedAspectLabel :: "string option \<Rightarrow> json \<Rightarrow> nat \<Rightarrow> string" where
  "claimedAspectLabel structuralKey aspectRecord index =
     firstPresent
       [truthyString (getProp aspectRecord ''label''),
        truthyString (getProp aspectRecord ''name''),
        truthyString (getProp aspectRecord ''aspectName''),
        (case structuralKey of Some key \<Rightarrow> presentKey key | None \<Rightarrow> None)]
       (''aspect_'' @ showNat (index + 1))"

text \<open>An aspect that the scan enters: an object or an array.\<close>

definition isRecord :: "json \<Rightarrow> bool" where
  "isRecord v = (truthy v \<and> typeofObject v)"

text \<open>
  Deduplication by a key, first occurrence wins: an element is kept unless the key of an
  element kept before it (or a key seen beforehand) equals its key.
\<close>

fun dedupBy :: "('a \<Rightarrow> 'k) \<Rightarrow> 'k list \<Rightarrow> 'a list \<Rightarrow> 'a list" where
  "dedupBy f seen [] = []"
| "dedupBy f seen (x # xs) =
     (if f x \<in> set seen then dedupBy f seen xs else x # dedupBy f (f x # seen) xs)"

section \<open>Neighborhood builder (src/App.tsx, \<open>loadNeighborhood\<close>)\<close>

text \<open>
  The \<open>Neighborhood\<close> of \<open>types.ts\<close>. A \<open>Set<string>\<close> is the list of its members in insertion
  order; the object \<open>aspectLabelsByUrn\<close> is a list of entries read by key.
\<close>

record Neighborhood =
  centerUrn :: string
  previousUrn :: "string option"
  parentUrns :: "string list"
  dependencyUrns :: "string list"
  aspectLabelsByUrn :: "(string \<times> string list) list"
  edges :: "RelationshipEdge list"

text \<open>The React state that a navigation action reads and sets.\<close>

record app_state =
  entitiesByUrn :: "string \<rightharpoonup> DatahubObject"
  neighborhood :: "Neighborhood option"
  navStack :: "string list"
  centerId :: "string option"
  urnInput :: string
  inputError :: string
  isLoading :: bool

text \<open>
  \<open>Promise.all\<close> of two promises: both values when both fulfil; otherwise the reason of the
  promise that rejects first, which when both reject is decided by the network's timing.
\<close>

definition promiseAll2 :: "bool \<Rightarrow> thrown + 'a \<Rightarrow> thrown + 'b \<Rightarrow> thrown + ('a \<times> 'b)" where
  "promiseAll2 secondRejectsFirst a b =
     (case a of
        Inr x \<Rightarrow> (case b of Inr y \<Rightarrow> Inr (x, y) | Inl e2 \<Rightarrow> Inl e2)
      | Inl e1 \<Rightarrow> (case b of Inr y \<Rightarrow> Inl e1
                             | Inl e2 \<Rightarrow> Inl (if secondRejectsFirst then e2 else e1)))"

definition jsonDependencyUrnsOf :: "DatahubObject \<Rightarrow> string list" where
  "jsonDependencyUrnsOf centerEntity =
     filter (\<lambda>candidateUrn. candidateUrn \<noteq> obj_id centerEntity)
            (extractUrnsFromJson (obj_raw centerEntity) [])"

text \<open>The inner callback that files one identifier of one aspect group under its label.\<close>

definition addAspectLabel ::
  "string \<Rightarrow> string \<Rightarrow> string \<Rightarrow> (string \<times> string list) list \<Rightarrow> (string \<times> string list) list" where
  "addAspectLabel centerIdent lab aspectUrn acc =
     (if aspectUrn = centerIdent then acc
      else (let existingLabels = (case map_of acc aspectUrn of Some ls \<Rightarrow> ls | None \<Rightarrow> [])
            in if lab \<in> set existingLabels then acc
               else mapSet aspectUrn (existingLabels @ [lab]) acc))"

definition aspectLabelsByUrnOf :: "DatahubObject \<Rightarrow> (string \<times> string list) list" where
  "aspectLabelsByUrnOf centerEntity =
     fold (\<lambda>g acc. fold (addAspectLabel (obj_id centerEntity) (fst g)) (snd g) acc)
          (extractAspectUrnGroups (obj_raw centerEntity)) []"

definition previousUrnOf :: "string list \<Rightarrow> string option" where
  "previousUrnOf nextNavStack =
     (if length nextNavStack > 1 then Some (nextNavStack ! (length nextNavStack - 2)) else None)"

text \<open>\<open>previousUrn && previousUrn !== id\<close>: the previous identifier, when there is one, it is
  not the empty string and it is not the given identifier.\<close>

definition distinctPrevious :: "string option \<Rightarrow> string \<Rightarrow> string list" where
  "distinctPrevious previous ident =
     (case previous of
        Some p \<Rightarrow> if p \<noteq> [] \<and> p \<noteq> ident then [p] else []
      | None \<Rightarrow> [])"

definition neighborUrnsOf :: "string list \<Rightarrow> string list \<Rightarrow> string option \<Rightarrow> string \<Rightarrow> string list" where
  "neighborUrnsOf parents dependencies previous centerIdent =
     setFrom (parents @ dependencies @ distinctPrevious previous centerIdent)"

definition placeholderEntity :: "string \<Rightarrow> DatahubObject" where
  "placeholderEntity neighborUrn =
     \<lparr> obj_id = neighborUrn, obj_type = parseUrnType neighborUrn,
       obj_name = urnName neighborUrn,
       obj_raw = JObj [(''urn'', JStr neighborUrn), (''unavailable'', JBool True)] \<rparr>"

text \<open>The callback of \<open>neighborUrns.map\<close>: a failed lookup is caught and replaced.\<close>

definition resolveNeighbor :: "network \<Rightarrow> string \<Rightarrow> string \<Rightarrow> string \<Rightarrow> DatahubObject" where
  "resolveNeighbor fetch token baseUrl neighborUrn =
     (case fetchEntity fetch token baseUrl neighborUrn of
        Inr entity \<Rightarrow> entity
      | Inl _ \<Rightarrow> placeholderEntity neighborUrn)"

text \<open>\<open>nextEntities[entity.id] = entity\<close>.\<close>

definition cachePut :: "DatahubObject \<Rightarrow> (string \<rightharpoonup> DatahubObject) \<Rightarrow> (string \<rightharpoonup> DatahubObject)" where
  "cachePut entity nextEntities = nextEntities(obj_id entity \<mapsto> entity)"

definition mergeEntities ::
  "(string \<rightharpoonup> DatahubObject) \<Rightarrow> DatahubObject \<Rightarrow> DatahubObject list \<Rightarrow> (string \<rightharpoonup> DatahubObject)" where
  "mergeEntities cache centerEntity neighborEntities =
     fold cachePut neighborEntities (cachePut centerEntity cache)"

definition incomingEdgesOf :: "string \<Rightarrow> related list \<Rightarrow> RelationshipEdge list" where
  "incomingEdgesOf centerIdent incoming =
     map (\<lambda>item. \<lparr> sourceId = rel_urn item, targetId = centerIdent, edgeType = rel_type item \<rparr>)
         incoming"

definition outgoingEdgesOf :: "string \<Rightarrow> related list \<Rightarrow> RelationshipEdge list" where
  "outgoingEdgesOf centerIdent outgoing =
     map (\<lambda>item. \<lparr> sourceId = centerIdent, targetId = rel_urn item, edgeType = rel_type item \<rparr>)
         outgoing"

definition jsonDependencyEdgesOf ::
  "string \<Rightarrow> string list \<Rightarrow> (string \<times> string list) list \<Rightarrow> RelationshipEdge list" where
  "jsonDependencyEdgesOf centerIdent jsonDependencyUrns labelsByUrn =
     map (\<lambda>dependencyUrn.
            \<lparr> sourceId = centerIdent, targetId = dependencyUrn,
              edgeType = (case map_of labelsByUrn dependencyUrn of
                            Some aspectLabels \<Rightarrow>
                              if length aspectLabels > 0
                              then ''aspect:'' @ js_join ''|'' aspectLabels
                              else ''json_reference''
                          | None \<Rightarrow> ''json_reference'') \<rparr>)
         jsonDependencyUrns"

definition hasExistingPreviousLink :: "RelationshipEdge list \<Rightarrow> string option \<Rightarrow> string \<Rightarrow> bool" where
  "hasExistingPreviousLink relationshipEdges previous centerIdent =
     list_ex (\<lambda>edge. (Some (sourceId edge) = previous \<and> targetId edge = centerIdent) \<or>
                      (sourceId edge = centerIdent \<and> Some (targetId edge) = previous))
             relationshipEdges"

definition previousEdgeOf :: "RelationshipEdge list \<Rightarrow> string option \<Rightarrow> string \<Rightarrow> RelationshipEdge list" where
  "previousEdgeOf relationshipEdges previous centerIdent =
     (if hasExistingPreviousLink relationshipEdges previous centerIdent then []
      else map (\<lambda>p. \<lparr> sourceId = p, targetId = centerIdent, edgeType = ''previous_selection'' \<rparr>)
               (distinctPrevious previous centerIdent))"

text \<open>
  The deduplication loop: the key of an edge is the three fields joined by \<open>|\<close>; an edge
  is stored under its key unless the map already has that key; the result is the map's
  values in insertion order.
\<close>

definition edgeKey :: "RelationshipEdge \<Rightarrow> string" where
  "edgeKey edge = sourceId edge @ ''|'' @ targetId edge @ ''|'' @ edgeType edge"

definition dedupeStep ::
  "RelationshipEdge \<Rightarrow> (string \<times> RelationshipEdge) list \<Rightarrow> (string \<times> RelationshipEdge) list" where
  "dedupeStep edge dedupedEdgesMap =
     (if edgeKey edge \<in> fst ` set dedupedEdgesMap then dedupedEdgesMap
      else mapSet (edgeKey edge) edge dedupedEdgesMap)"

definition dedupeEdges :: "RelationshipEdge list \<Rightarrow> RelationshipEdge list" where
  "dedupeEdges discovered = map snd (fold dedupeStep discovered [])"

text \<open>
  The edges in discovery order: incoming, outgoing, in-payload references, and the
  synthetic previous edge.
\<close>

definition discoveredEdges ::
  "DatahubObject \<Rightarrow> related list \<Rightarrow> related list \<Rightarrow> string option \<Rightarrow> RelationshipEdge list" where
  "discoveredEdges centerEntity incoming outgoing previous =
     (let relationshipEdges =
            incomingEdgesOf (obj_id centerEntity) incoming
            @ outgoingEdgesOf (obj_id centerEntity) outgoing
            @ jsonDependencyEdgesOf (obj_id centerEntity) (jsonDependencyUrnsOf centerEntity)
                (aspectLabelsByUrnOf centerEntity)
      in relationshipEdges @ previousEdgeOf relationshipEdges previous (obj_id centerEntity))"

text \<open>The message shown for a caught error.\<close>

definition errorText :: "thrown \<Rightarrow> string" where
  "errorText error =
     (case error of
        DatahubApiError e \<Rightarrow>
          (let attempts =
                 (case err_attemptedEndpoints e of
                    Some endpoints \<Rightarrow> js_join '', '' endpoints
                  | None \<Rightarrow> (case err_endpoint e of
                               Some ep \<Rightarrow> ep
                             | None \<Rightarrow> ''unknown endpoint''));
               detailText =
                 (case err_details e of
                    Some d \<Rightarrow> if d \<noteq> [] then '' Details: '' @ d else []
                  | None \<Rightarrow> [])
           in err_message e @ '' Attempted: '' @ attempts @ ''.'' @ detailText)
      | OtherError kind msg \<Rightarrow> msg)"

text \<open>The \<open>catch\<close> and \<open>finally\<close> blocks: only the message and the loading flag change.\<close>

definition failedAction :: "app_state \<Rightarrow> thrown \<Rightarrow> app_state" where
  "failedAction st error = st\<lparr> inputError := errorText error, isLoading := False \<rparr>"

text \<open>
  The \<open>try\<close> block from the point where the three required fetches have succeeded, with
  the \<open>finally\<close> block. The stack and the cache read are those of the state the action
  started from.
\<close>

definition committedAction ::
  "network \<Rightarrow> string \<Rightarrow> string \<Rightarrow> app_state \<Rightarrow> DatahubObject \<Rightarrow> related list \<Rightarrow> related list
     \<Rightarrow> NavigationMode \<Rightarrow> int option \<Rightarrow> app_state" where
  "committedAction fetch token baseUrl st centerEntity incoming outgoing mode breadcrumbIndex =
     (let nextNavStack = getNextNavigationStack (navStack st) (obj_id centerEntity) mode breadcrumbIndex;
          previous = previousUrnOf nextNavStack;
          parents = setFrom (map rel_urn incoming);
          dependencies = setFrom (map rel_urn outgoing @ jsonDependencyUrnsOf centerEntity);
          neighborUrns = neighborUrnsOf parents dependencies previous (obj_id centerEntity);
          neighborEntities = map (resolveNeighbor fetch token baseUrl) neighborUrns;
          nextEntities = mergeEntities (entitiesByUrn st) centerEntity neighborEntities
      in st\<lparr> entitiesByUrn := nextEntities,
              neighborhood := Some \<lparr> centerUrn = obj_id centerEntity,
                                      previousUrn = previous,
                                      parentUrns = parents,
                                      dependencyUrns = dependencies,
                                      aspectLabelsByUrn = aspectLabelsByUrnOf centerEntity,
                                      edges = dedupeEdges
                                                (discoveredEdges centerEntity incoming outgoing previous) \<rparr>,
              navStack := nextNavStack,
              centerId := Some (obj_id centerEntity),
              urnInput := obj_id centerEntity,
              isLoading := False \<rparr>)"

definition loadNeighborhood ::
  "network \<Rightarrow> bool \<Rightarrow> string \<Rightarrow> string \<Rightarrow> app_state \<Rightarrow> string \<Rightarrow> NavigationMode option
     \<Rightarrow> int option \<Rightarrow> app_state" where
  "loadNeighborhood fetch outgoingRejectsFirst token baseUrl st urn optMode breadcrumbIndex =
     (let trimmedUrn = trim urn in
      if trimmedUrn = [] then st\<lparr> inputError := ''Enter a URN to connect.'' \<rparr>
      else
        (let loading = st\<lparr> isLoading := True, inputError := [] \<rparr> in
         case fetchEntity fetch token baseUrl trimmedUrn of
           Inl error \<Rightarrow> failedAction loading error
         | Inr centerEntity \<Rightarrow>
            (case promiseAll2 outgoingRejectsFirst
                    (fetchRelationships fetch token baseUrl (obj_id centerEntity) INCOMING)
                    (fetchRelationships fetch token baseUrl (obj_id centerEntity) OUTGOING) of
               Inl error \<Rightarrow> failedAction loading error
             | Inr both \<Rightarrow>
                 committedAction fetch token baseUrl loading centerEntity (fst both) (snd both)
                   (case optMode of Some m \<Rightarrow> m | None \<Rightarrow> Node) breadcrumbIndex)))"

section \<open>Radial layout engine (src/App.tsx, the \<open>graph\<close> memo)\<close>

text \<open>
  A positioned node. Its \<open>object\<close> is what the cache holds under the identifier, which the
  code reads without a test; \<open>None\<close> is \<open>undefined\<close>. Coordinates are real numbers: the
  model computes with exact arithmetic what the code computes in floating point.
\<close>

datatype node_role = Center | Parent | Dependency | Both | Previous

record PositionedNode =
  node_object :: "DatahubObject option"
  node_x :: real
  node_y :: real
  node_role :: node_role

definition svgWidth :: real where
  "svgWidth = 980"

definition svgHeight :: real where
  "svgHeight = 660"

text \<open>
  \<open>xs.sort((left, right) => left.localeCompare(right))\<close>. The comparator is the host's
  locale collation and is a parameter \<open>cmp\<close> of the model, with \<open>cmp a b \<le> 0\<close> when \<open>a\<close>
  sorts before or with \<open>b\<close>. \<open>Array.prototype.sort\<close> is stable; for a comparator that is
  a total preorder its result is the one computed here by stable insertion.
\<close>

fun insertSorted :: "('a \<Rightarrow> 'a \<Rightarrow> int) \<Rightarrow> 'a \<Rightarrow> 'a list \<Rightarrow> 'a list" where
  "insertSorted cmp x [] = [x]"
| "insertSorted cmp x (y # ys) =
     (if cmp x y \<le> 0 then x # y # ys else y # insertSorted cmp x ys)"

definition jsSort :: "('a \<Rightarrow> 'a \<Rightarrow> int) \<Rightarrow> 'a list \<Rightarrow> 'a list" where
  "jsSort cmp xs = foldr (insertSorted cmp) xs []"

text \<open>\<open>Boolean(entitiesByUrn[urn])\<close>.\<close>

definition inCache :: "(string \<rightharpoonup> DatahubObject) \<Rightarrow> string \<Rightarrow> bool" where
  "inCache cache u = (cache u \<noteq> None)"

text \<open>\<open>neighborhood.aspectLabelsByUrn[urn]?.[0] ?? 'Uncategorized'\<close>.\<close>

definition groupLabelOf :: "(string \<times> string list) list \<Rightarrow> string \<Rightarrow> string" where
  "groupLabelOf labelsByUrn u =
     (case map_of labelsByUrn u of
        Some (l # ls) \<Rightarrow> l
      | _ \<Rightarrow> ''Uncategorized'')"

text \<open>The two \<open>filter\<close> calls applied to the parents and to the dependencies.\<close>

definition plottable :: "(string \<rightharpoonup> DatahubObject) \<Rightarrow> string option \<Rightarrow> string list \<Rightarrow> string list" where
  "plottable cache previous urns =
     filter (\<lambda>u. Some u \<noteq> previous) (filter (inCache cache) urns)"

text \<open>The \<open>forEach\<close> that fills the map \<open>dependencyGroups\<close>.\<close>

definition groupStep ::
  "(string \<times> string list) list \<Rightarrow> string \<Rightarrow> (string \<times> string list) list
     \<Rightarrow> (string \<times> string list) list" where
  "groupStep labelsByUrn u dependencyGroups =
     (let l = groupLabelOf labelsByUrn u;
          current = (case map_of dependencyGroups l of Some us \<Rightarrow> us | None \<Rightarrow> [])
      in mapSet l (current @ [u]) dependencyGroups)"

definition dependencyGroupsOf ::
  "Neighborhood \<Rightarrow> (string \<rightharpoonup> DatahubObject) \<Rightarrow> (string \<times> string list) list" where
  "dependencyGroupsOf nb cache =
     fold (groupStep (aspectLabelsByUrn nb))
          (plottable cache (previousUrn nb) (dependencyUrns nb)) []"

definition groupedDependenciesOf ::
  "(string \<Rightarrow> string \<Rightarrow> int) \<Rightarrow> Neighborhood \<Rightarrow> (string \<rightharpoonup> DatahubObject)
     \<Rightarrow> (string \<times> string list) list" where
  "groupedDependenciesOf cmp nb cache =
     (let dependencyGroups = dependencyGroupsOf nb cache;
          sortedDependencyGroupLabels = jsSort cmp (map fst dependencyGroups)
      in map (\<lambda>l. (l, jsSort cmp (case map_of dependencyGroups l of Some us \<Rightarrow> us | None \<Rightarrow> [])))
             sortedDependencyGroupLabels)"

definition sortedParentsOf ::
  "(string \<Rightarrow> string \<Rightarrow> int) \<Rightarrow> Neighborhood \<Rightarrow> (string \<rightharpoonup> DatahubObject) \<Rightarrow> string list" where
  "sortedParentsOf cmp nb cache = jsSort cmp (plottable cache (previousUrn nb) (parentUrns nb))"

text \<open>\<open>neighborUrns\<close>: the ordered identifiers without repetition.\<close>

definition graphNeighborUrns ::
  "(string \<Rightarrow> string \<Rightarrow> int) \<Rightarrow> Neighborhood \<Rightarrow> string \<Rightarrow> (string \<rightharpoonup> DatahubObject) \<Rightarrow> string list" where
  "graphNeighborUrns cmp nb center cache =
     (let aspectOrderedDependencies = concat (map snd (groupedDependenciesOf cmp nb cache));
          orderedNeighborUrns =
            distinctPrevious (previousUrn nb) center
            @ sortedParentsOf cmp nb cache
            @ aspectOrderedDependencies
      in setFrom orderedNeighborUrns)"

definition roleOf :: "Neighborhood \<Rightarrow> string \<Rightarrow> node_role" where
  "roleOf nb u =
     (let isParent = u \<in> set (parentUrns nb);
          isDependency = u \<in> set (dependencyUrns nb)
      in if previousUrn nb = Some u then Previous
         else if isParent \<and> isDependency then Both
         else if isParent then Parent
         else Dependency)"

definition layoutRadius :: real where
  "layoutRadius = min svgWidth svgHeight * 0.34"

definition neighborAngle :: "nat \<Rightarrow> nat \<Rightarrow> real" where
  "neighborAngle index n = (pi * 2 * real index) / real (max n 1) - pi / 2"

text \<open>The callback of \<open>neighborUrns.forEach\<close>, for an identifier and its index.\<close>

definition neighborNode ::
  "Neighborhood \<Rightarrow> (string \<rightharpoonup> DatahubObject) \<Rightarrow> nat \<Rightarrow> string \<times> nat \<Rightarrow> PositionedNode" where
  "neighborNode nb cache n p =
     (case p of (u, index) \<Rightarrow>
        \<lparr> node_object = cache u,
          node_x = svgWidth / 2 + layoutRadius * cos (neighborAngle index n),
          node_y = svgHeight / 2 + layoutRadius * sin (neighborAngle index n),
          node_role = roleOf nb u \<rparr>)"

text \<open>
  The nodes of the graph: none without a Neighborhood, a non-empty center identifier and a
  cached center; otherwise the center node followed by one node per neighbor. (The lanes,
  which no property here concerns, are left out.)
\<close>

definition graphNodes :: "(string \<Rightarrow> string \<Rightarrow> int) \<Rightarrow> app_state \<Rightarrow> PositionedNode list" where
  "graphNodes cmp st =
     (case neighborhood st of
        None \<Rightarrow> []
      | Some nb \<Rightarrow>
         (case centerId st of
            None \<Rightarrow> []
          | Some center \<Rightarrow>
             if center = [] then []
             else (case entitiesByUrn st center of
                     None \<Rightarrow> []
                   | Some centerObject \<Rightarrow>
                      (let neighborUrns = graphNeighborUrns cmp nb center (entitiesByUrn st)
                       in \<lparr> node_object = Some centerObject, node_x = svgWidth / 2,
                             node_y = svgHeight / 2, node_role = Center \<rparr>
                          # map (neighborNode nb (entitiesByUrn st) (length neighborUrns))
                                (withIndex neighborUrns)))))"



text \<open>
  The neighbor identifiers that an action resolves once its three required fetches have
  succeeded: the parents, the dependencies and the previous identifier.
\<close>

definition neighborsOfAction ::
  "app_state \<Rightarrow> DatahubObject \<Rightarrow> related list \<Rightarrow> related list \<Rightarrow> NavigationMode option
     \<Rightarrow> int option \<Rightarrow> string list" where
  "neighborsOfAction st centerEntity incoming outgoing optMode breadcrumbIndex =
     neighborUrnsOf
       (setFrom (map rel_urn incoming))
       (setFrom (map rel_urn outgoing @ jsonDependencyUrnsOf centerEntity))
       (previousUrnOf
          (getNextNavigationStack (navStack st) (obj_id centerEntity)
             (case optMode of Some m \<Rightarrow> m | None \<Rightarrow> Node) breadcrumbIndex))
       (obj_id centerEntity)"

text \<open>The triple of an edge, and deduplication by the triple as the specification has it.\<close>

definition edgeTriple :: "RelationshipEdge \<Rightarrow> string \<times> string \<times> string" where
  "edgeTriple edge = (sourceId edge, targetId edge, edgeType edge)"

definition firstByTriple :: "RelationshipEdge list \<Rightarrow> RelationshipEdge list" where
  "firstByTriple discovered = dedupBy edgeTriple [] discovered"



text \<open>A comparator that orders every two strings, transitively.\<close>

definition totalPreorder :: "('a \<Rightarrow> 'a \<Rightarrow> int) \<Rightarrow> bool" where
  "totalPreorder cmp =
     ((\<forall>a b. cmp a b \<le> 0 \<or> cmp b a \<le> 0) \<and>
      (\<forall>a b c. cmp a b \<le> 0 \<and> cmp b c \<le> 0 \<longrightarrow> cmp a c \<le> 0))"

text \<open>Comparison by character codes, a comparator to evaluate the layout with.\<close>

fun codeUnitCompare :: "string \<Rightarrow> string \<Rightarrow> int" where
  "codeUnitCompare [] [] = 0"
| "codeUnitCompare [] (y # ys) = -1"
| "codeUnitCompare (x # xs) [] = 1"
| "codeUnitCompare (x # xs) (y # ys) =
     (if (of_char x :: nat) < of_char y then -1
      else if (of_char y :: nat) < of_char x then 1
      else codeUnitCompare xs ys)"



section \<open>Example inputs\<close>

text \<open>
  A relationships response whose first wrapper field is an empty list and whose second
  holds an item, and one whose only wrapper field is \<open>entities\<close>.
\<close>

definition emptyFirstResponse :: json where
  "emptyFirstResponse =
     JObj [(''relationships'', JArr []),
           (''entities'', JArr [JObj [(''urn'', JStr ''urn:li:dataset:d'')]])]"

definition entitiesOnlyResponse :: json where
  "entitiesOnlyResponse =
     JObj [(''total'', JNum 1),
           (''entities'', JArr [JObj [(''urn'', JStr ''urn:li:dataset:d'')]])]"

text \<open>
  Raw entities: one with list-shaped aspects (the one of \<open>urn.test.ts\<close>), and one with
  map-shaped aspects whose only record has an \<open>aspectName\<close> field and sits under the
  key \<open>k\<close>.
\<close>

definition ownershipAspect :: json where
  "ownershipAspect = JObj [(''label'', JStr ''ownership''), (''owner'', JStr ''urn:li:corpuser:jdoe'')]"

definition listShapeRaw :: json where
  "listShapeRaw =
     JObj [(''aspects'',
            JArr [ownershipAspect,
                  JObj [(''label'', JStr ''datasetKey''),
                        (''platform'', JStr ''urn:li:dataPlatform:hive'')]])]"

definition aspectNameRecord :: json where
  "aspectNameRecord = JObj [(''aspectName'', JStr ''foo''), (''owner'', JStr ''urn:li:corpuser:x'')]"

definition mapShapeRaw :: json where
  "mapShapeRaw = JObj [(''aspects'', JObj [(''k'', aspectNameRecord)])]"

text \<open>
  A raw entity with list-shaped aspects in which two records carry the same label.
\<close>

definition repeatedLabelRaw :: json where
  "repeatedLabelRaw =
     JObj [(''aspects'',
            JArr [JObj [(''label'', JStr ''x''), (''owner'', JStr ''urn:li:corpuser:a'')],
                  JObj [(''label'', JStr ''x''), (''owner'', JStr ''urn:li:corpuser:b'')]])]"

text \<open>
  The state before the first connection, a state with a history, and a network on which
  every request is rejected.
\<close>

definition initialState :: app_state where
  "initialState =
     \<lparr> entitiesByUrn = Map.empty, neighborhood = None, navStack = [], centerId = None,
       urnInput = [], inputError = [], isLoading = False \<rparr>"




text \<open>
  A catalog that knows the dataset \<open>c\<close>, one incoming relationship (from \<open>job1\<close>, served by
  the current endpoint) and one outgoing relationship (to \<open>downstream1\<close>, served only by
  the legacy endpoint); the payload of \<open>c\<close> names \<open>owner1\<close> under the aspect \<open>ownership\<close>.
  Of the neighbors only \<open>downstream1\<close> can be looked up; every other request is answered
  with status 404.
\<close>

definition okResponse :: "json \<Rightarrow> fetch_result" where
  "okResponse body =
     Responded \<lparr> resp_ok = True, resp_status = 200, resp_statusText = ''OK'',
                 resp_text = [], resp_json = Inr body \<rparr>"

definition notFound :: fetch_result where
  "notFound =
     Responded \<lparr> resp_ok = False, resp_status = 404, resp_statusText = ''Not Found'',
                 resp_text = [], resp_json = Inl ''Unexpected end of JSON input'' \<rparr>"

definition payloadC :: json where
  "payloadC =
     JObj [(''urn'', JStr ''urn:li:dataset:c''),
           (''aspects'', JArr [JObj [(''label'', JStr ''ownership''),
                                     (''owner'', JStr ''urn:li:corpuser:owner1'')]])]"

definition sampleNetwork :: network where
  "sampleNetwork url headers =
     (if url = ''/gms/openapi/entities/v1/latest?urns=urn%3Ali%3Adataset%3Ac&withSystemMetadata=false''
      then okResponse (JObj [(''responses'', JObj [(''urn:li:dataset:c'', payloadC)])])
      else if url = ''/gms/openapi/relationships/v1/?urn=urn%3Ali%3Adataset%3Ac&direction=INCOMING&start=0&count=100''
      then okResponse
             (JObj [(''relationships'',
                     JArr [JObj [(''entity'', JStr ''urn:li:dataJob:job1''),
                                 (''type'', JStr ''Produces'')]])])
      else if url = ''/gms/relationships?urn=urn%3Ali%3Adataset%3Ac&direction=OUTGOING&types=''
                    @ ''DownstreamOf%2CUpstreamOf%2CConsumes%2CProduces%2CDependsOn%2CContains%2COwnedBy''
                    @ ''%2CParentOf%2CIsPartOf%2CHasPart%2CSchemaFieldOf%2CInputFields%2COutputFields''
                    @ ''&start=0&count=100''
      then okResponse
             (JObj [(''entities'',
                     JArr [JObj [(''urn'', JStr ''urn:li:dataset:downstream1''),
                                 (''relationshipType'', JStr ''DownstreamOf'')]])])
      else if url = ''/gms/entitiesV2/urn%3Ali%3Adataset%3Adownstream1''
      then okResponse (JObj [(''value'', JObj [(''urn'', JStr ''urn:li:dataset:downstream1'')])])
      else notFound)"

definition entityC :: DatahubObject where
  "entityC = \<lparr> obj_id = ''urn:li:dataset:c'', obj_type = ''dataset'', obj_name = ''c'',
               obj_raw = payloadC \<rparr>"

definition incomingC :: "related list" where
  "incomingC = [\<lparr> rel_urn = ''urn:li:dataJob:job1'', rel_type = ''Produces'' \<rparr>]"

definition outgoingC :: "related list" where
  "outgoingC = [\<lparr> rel_urn = ''urn:li:dataset:downstream1'', rel_type = ''DownstreamOf'' \<rparr>]"





definition bareC :: DatahubObject where
  "bareC = \<lparr> obj_id = ''urn:li:dataset:c'', obj_type = ''dataset'', obj_name = ''c'',
             obj_raw = JObj [(''urn'', JStr ''urn:li:dataset:c'')] \<rparr>"

text \<open>
  A catalog on which the lookup of the parent \<open>job1\<close> fails and the lookup of the
  dependency \<open>downstream1\<close> answers with a payload whose \<open>urn\<close> field is \<open>job1\<close>.
\<close>

definition aliasNetwork :: network where
  "aliasNetwork url headers =
     (if url = ''/gms/openapi/entities/v1/latest?urns=urn%3Ali%3Adataset%3Ac&withSystemMetadata=false''
      then okResponse (JObj [(''urn'', JStr ''urn:li:dataset:c'')])
      else if url = ''/gms/openapi/relationships/v1/?urn=urn%3Ali%3Adataset%3Ac&direction=INCOMING&start=0&count=100''
      then okResponse
             (JObj [(''relationships'',
                     JArr [JObj [(''entity'', JStr ''urn:li:dataJob:job1''),
                                 (''type'', JStr ''Produces'')]])])
      else if url = ''/gms/openapi/relationships/v1/?urn=urn%3Ali%3Adataset%3Ac&direction=OUTGOING&start=0&count=100''
      then okResponse
             (JObj [(''relationships'',
                     JArr [JObj [(''entity'', JStr ''urn:li:dataset:downstream1''),
                                 (''type'', JStr ''DownstreamOf'')]])])
      else if url = ''/gms/openapi/entities/v1/latest?urns=urn%3Ali%3Adataset%3Adownstream1&withSystemMetadata=false''
      then okResponse (JObj [(''urn'', JStr ''urn:li:dataJob:job1''), (''flow'', JStr ''nightly'')])
      else notFound)"

definition aliasedJob :: DatahubObject where
  "aliasedJob = \<lparr> obj_id = ''urn:li:dataJob:job1'', obj_type = ''dataJob'', obj_name = ''job1'',
                  obj_raw = JObj [(''urn'', JStr ''urn:li:dataJob:job1''),
                                  (''flow'', JStr ''nightly'')] \<rparr>"




text \<open>Two edges with different triples and the same joined key.\<close>

definition barInTarget :: RelationshipEdge where
  "barInTarget = \<lparr> sourceId = ''urn:li:dataset:c'', targetId = ''urn:li:x|a'', edgeType = ''b'' \<rparr>"

definition barInType :: RelationshipEdge where
  "barInType = \<lparr> sourceId = ''urn:li:dataset:c'', targetId = ''urn:li:x'', edgeType = ''a|b'' \<rparr>"

text \<open>
  States for the layout. In \<open>layoutState\<close> the previous identifier \<open>a\<close> is also a parent and
  a dependency, \<open>shared\<close> is both a parent and a dependency, \<open>ghost\<close> is a dependency that
  the cache does not hold, and \<open>owner1\<close> carries the aspect label \<open>ownership\<close>. In
  \<open>uncachedPreviousState\<close>, a state that no navigation action produces, the previous
  identifier \<open>p\<close> is not in the cache.
\<close>

definition layoutNeighborhood :: Neighborhood where
  "layoutNeighborhood =
     \<lparr> centerUrn = ''urn:li:dataset:c'',
       previousUrn = Some ''urn:li:dataset:a'',
       parentUrns = [''urn:li:dataset:shared'', ''urn:li:dataset:a'', ''urn:li:dataJob:job1''],
       dependencyUrns = [''urn:li:corpuser:owner1'', ''urn:li:dataset:shared'',
                         ''urn:li:dataset:ghost'', ''urn:li:dataset:downstream1'',
                         ''urn:li:dataset:a''],
       aspectLabelsByUrn = [(''urn:li:corpuser:owner1'', [''ownership''])],
       edges = [] \<rparr>"

definition layoutCache :: "string \<rightharpoonup> DatahubObject" where
  "layoutCache =
     map_of (map (\<lambda>u. (u, placeholderEntity u))
               [''urn:li:dataset:c'', ''urn:li:dataset:a'', ''urn:li:dataJob:job1'',
                ''urn:li:dataset:shared'', ''urn:li:dataset:downstream1'',
                ''urn:li:corpuser:owner1''])"

definition layoutState :: app_state where
  "layoutState =
     \<lparr> entitiesByUrn = layoutCache,
       neighborhood = Some layoutNeighborhood,
       navStack = [''urn:li:dataset:a'', ''urn:li:dataset:c''],
       centerId = Some ''urn:li:dataset:c'',
       urnInput = ''urn:li:dataset:c'',
       inputError = [],
       isLoading = False \<rparr>"

definition uncachedPreviousNeighborhood :: Neighborhood where
  "uncachedPreviousNeighborhood =
     \<lparr> centerUrn = ''urn:li:dataset:c'',
       previousUrn = Some ''urn:li:dataset:p'',
       parentUrns = [], dependencyUrns = [], aspectLabelsByUrn = [], edges = [] \<rparr>"

definition uncachedPreviousState :: app_state where
  "uncachedPreviousState =
     \<lparr> entitiesByUrn = [''urn:li:dataset:c'' \<mapsto> placeholderEntity ''urn:li:dataset:c''],
       neighborhood = Some uncachedPreviousNeighborhood,
       navStack = [''urn:li:dataset:p'', ''urn:li:dataset:c''],
       centerId = Some ''urn:li:dataset:c'',
       urnInput = ''urn:li:dataset:c'',
       inputError = [],
       isLoading = False \<rparr>"

section \<open>Facts about the primitives\<close>


lemma lastIndexOf_upper: "lastIndexOf xs x < int (length xs)"
  by (induction xs) (auto simp: Let_def)

lemma lastIndexOf_found_iff: "lastIndexOf xs x \<ge> 0 \<longleftrightarrow> x \<in> set xs"
  by (induction xs) (auto simp: Let_def)

lemma lastIndexOf_nth: "x \<in> set xs \<Longrightarrow> xs ! nat (lastIndexOf xs x) = x"
proof (induction xs)
  case Nil
  then show ?case by simp
next
  case (Cons y ys)
  show ?case
  proof (cases "x \<in> set ys")
    case True
    then have "lastIndexOf ys x \<ge> 0" by (simp add: lastIndexOf_found_iff)
    then show ?thesis using Cons.IH [OF True] by (simp add: Let_def nat_add_distrib)
  next
    case False
    then have "\<not> lastIndexOf ys x \<ge> 0" by (simp add: lastIndexOf_found_iff)
    then show ?thesis using Cons.prems False by (simp add: Let_def)
  qed
qed

lemma lastIndexOf_is_last:
  "nat (lastIndexOf xs x) < j \<Longrightarrow> j < length xs \<Longrightarrow> x \<in> set xs \<Longrightarrow> xs ! j \<noteq> x"
proof (induction xs arbitrary: j)
  case Nil
  then show ?case by simp
next
  case (Cons y ys)
  show ?case
  proof (cases "x \<in> set ys")
    case True
    then have ge: "lastIndexOf ys x \<ge> 0" by (simp add: lastIndexOf_found_iff)
    then have "nat (lastIndexOf (y # ys) x) = Suc (nat (lastIndexOf ys x))"
      by (simp add: Let_def nat_add_distrib)
    with Cons.prems obtain j' where j': "j = Suc j'" "nat (lastIndexOf ys x) < j'" "j' < length ys"
      by (cases j) auto
    then show ?thesis using Cons.IH [OF j'(2) j'(3) True] by simp
  next
    case False
    with Cons.prems show ?thesis by (cases j) auto
  qed
qed

lemma slice_from_zero: "k \<ge> 0 \<Longrightarrow> slice xs 0 k = take (nat k) xs"
  by (simp add: slice_def sliceIndex_def min_def)

lemma last_take_Suc: "k < length xs \<Longrightarrow> last (take (Suc k) xs) = xs ! k"
  by (simp add: take_Suc_conv_app_nth)

lemma truncate_at_last_occurrence:
  assumes "x \<in> set xs"
  shows "slice xs 0 (lastIndexOf xs x + 1) = take (Suc (nat (lastIndexOf xs x))) xs"
    and "nat (lastIndexOf xs x) < length xs"
    and "slice xs 0 (lastIndexOf xs x + 1) \<noteq> []"
    and "last (slice xs 0 (lastIndexOf xs x + 1)) = x"
proof -
  from assms have ge: "lastIndexOf xs x \<ge> 0" by (simp add: lastIndexOf_found_iff)
  then show eq: "slice xs 0 (lastIndexOf xs x + 1) = take (Suc (nat (lastIndexOf xs x))) xs"
    by (simp add: slice_from_zero nat_add_distrib)
  show lt: "nat (lastIndexOf xs x) < length xs"
    using lastIndexOf_upper [of xs x] ge by simp
  from assms have "xs \<noteq> []" by auto
  then show "slice xs 0 (lastIndexOf xs x + 1) \<noteq> []" by (simp add: eq)
  show "last (slice xs 0 (lastIndexOf xs x + 1)) = x"
    using lt lastIndexOf_nth [OF assms] by (simp only: eq last_take_Suc)
qed

section \<open>Navigation stack: properties\<close>

text \<open>
  C7. For every stack, target, mode and optional breadcrumb index, the next stack is
  non-empty and its final element is the target. (The target need not even be non-empty.)
\<close>

theorem getNextNavigationStack_ends_with_target:
  "getNextNavigationStack s t m i \<noteq> [] \<and> last (getNextNavigationStack s t m i) = t"
proof (cases "t \<in> set s")
  case True
  note tr = truncate_at_last_occurrence [OF True]
  have found: "lastIndexOf s t \<ge> 0" using True by (simp add: lastIndexOf_found_iff)
  have valid: "validBreadcrumb s t (Some k) \<Longrightarrow>
      slice s 0 (k + 1) \<noteq> [] \<and> last (slice s 0 (k + 1)) = t" for k
  proof -
    assume v: "validBreadcrumb s t (Some k)"
    then have k: "k \<ge> 0" "nat k < length s" "s ! nat k = t"
      by (auto simp: validBreadcrumb_def)
    then have eq: "slice s 0 (k + 1) = take (Suc (nat k)) s"
      by (simp add: slice_from_zero nat_add_distrib)
    from k have "s \<noteq> []" by auto
    then show ?thesis using k by (simp only: eq last_take_Suc) simp
  qed
  have nonempty: "s \<noteq> []" using True by auto
  then have lastnth: "s ! (length s - 1) = last s" by (simp add: last_conv_nth)
  show ?thesis
    using found tr(3) tr(4) valid nonempty lastnth
    by (cases m; cases i) (auto simp: getNextNavigationStack_def Let_def)
next
  case False
  then have nf: "\<not> lastIndexOf s t \<ge> 0" by (simp add: lastIndexOf_found_iff)
  have nv: "\<not> validBreadcrumb s t (Some k)" for k
    using False by (auto simp: validBreadcrumb_def)
  have "s \<noteq> [] \<Longrightarrow> s ! (length s - 1) \<noteq> t"
    using False by (metis last_conv_nth last_in_set)
  then show ?thesis
    using nf nv by (cases m; cases i) (auto simp: getNextNavigationStack_def Let_def)
qed

text \<open>
  C2 (as stated, refuted). The claim lets breadcrumb mode append the target when it does not
  occur in the stack, as node mode does. The breadcrumb branch returns the one-element
  stack instead: on stack \<open>[a]\<close> with target \<open>b\<close> and no index it yields \<open>[b]\<close>,
  where node mode yields \<open>[a, b]\<close>.
\<close>

theorem breadcrumb_append_counterexample:
  "''b'' \<notin> set [''a''] \<and>
   \<not> validBreadcrumb [''a''] ''b'' None \<and>
   getNextNavigationStack [''a''] ''b'' Breadcrumb None = [''b''] \<and>
   getNextNavigationStack [''a''] ''b'' Breadcrumb None \<noteq> [''a''] @ [''b''] \<and>
   getNextNavigationStack [''a''] ''b'' Node None = [''a''] @ [''b'']"
  by (simp add: getNextNavigationStack_def validBreadcrumb_def Let_def)

text \<open>
  C2 (amended). In breadcrumb mode: when the index is valid and the stack holds the target
  there, the stack is truncated to that index inclusive; otherwise, when the target occurs
  in the stack, the stack is truncated to and including its last occurrence; and when the
  target does not occur, the result is the one-element stack holding the target (the
  history is discarded, not extended).
\<close>

theorem breadcrumb_rule:
  "(validBreadcrumb s t i \<longrightarrow>
      (\<exists>k. i = Some (int k) \<and> k < length s \<and> s ! k = t \<and>
           getNextNavigationStack s t Breadcrumb i = take (Suc k) s)) \<and>
   (\<not> validBreadcrumb s t i \<and> t \<in> set s \<longrightarrow>
      (\<exists>k. k < length s \<and> s ! k = t \<and> (\<forall>j. k < j \<and> j < length s \<longrightarrow> s ! j \<noteq> t) \<and>
           getNextNavigationStack s t Breadcrumb i = take (Suc k) s)) \<and>
   (\<not> validBreadcrumb s t i \<and> t \<notin> set s \<longrightarrow>
      getNextNavigationStack s t Breadcrumb i = [t])"
proof (intro conjI impI)
  assume v: "validBreadcrumb s t i"
  then obtain n where n: "i = Some n" "n \<ge> 0" "nat n < length s" "s ! nat n = t"
    by (auto simp: validBreadcrumb_def split: option.splits)
  have "getNextNavigationStack s t Breadcrumb i = take (Suc (nat n)) s"
    using v n by (simp add: getNextNavigationStack_def slice_from_zero nat_add_distrib)
  then show "\<exists>k. i = Some (int k) \<and> k < length s \<and> s ! k = t \<and>
      getNextNavigationStack s t Breadcrumb i = take (Suc k) s"
    using n by (intro exI [of _ "nat n"]) simp
next
  assume a: "\<not> validBreadcrumb s t i \<and> t \<in> set s"
  then have mem: "t \<in> set s" and nv: "\<not> validBreadcrumb s t i" by simp_all
  let ?k = "nat (lastIndexOf s t)"
  note tr = truncate_at_last_occurrence [OF mem]
  have found: "lastIndexOf s t \<ge> 0" using mem by (simp add: lastIndexOf_found_iff)
  have res: "getNextNavigationStack s t Breadcrumb i = take (Suc ?k) s"
    using nv found tr(1)
    by (cases i) (simp_all add: getNextNavigationStack_def Let_def)
  have later: "\<forall>j. ?k < j \<and> j < length s \<longrightarrow> s ! j \<noteq> t"
    using lastIndexOf_is_last [of s t] mem by blast
  show "\<exists>k. k < length s \<and> s ! k = t \<and> (\<forall>j. k < j \<and> j < length s \<longrightarrow> s ! j \<noteq> t) \<and>
      getNextNavigationStack s t Breadcrumb i = take (Suc k) s"
    using tr(2) lastIndexOf_nth [OF mem] later res by (intro exI [of _ ?k]) simp
next
  assume a: "\<not> validBreadcrumb s t i \<and> t \<notin> set s"
  then have "\<not> lastIndexOf s t \<ge> 0" by (simp add: lastIndexOf_found_iff)
  with a show "getNextNavigationStack s t Breadcrumb i = [t]"
    by (cases i) (simp_all add: getNextNavigationStack_def Let_def)
qed

theorem breadcrumb_rule_witness:
  "validBreadcrumb [''a'', ''b'', ''c''] ''a'' (Some 0) \<and>
   getNextNavigationStack [''a'', ''b'', ''c''] ''a'' Breadcrumb (Some 0) = [''a''] \<and>
   \<not> validBreadcrumb [''a'', ''b'', ''a'', ''c''] ''a'' (Some 1) \<and>
   ''a'' \<in> set [''a'', ''b'', ''a'', ''c''] \<and>
   getNextNavigationStack [''a'', ''b'', ''a'', ''c''] ''a'' Breadcrumb (Some 1) = [''a'', ''b'', ''a''] \<and>
   \<not> validBreadcrumb [''a'', ''b''] ''c'' (Some 5) \<and>
   ''c'' \<notin> set [''a'', ''b''] \<and>
   getNextNavigationStack [''a'', ''b''] ''c'' Breadcrumb (Some 5) = [''c'']"
proof -
  have v1: "validBreadcrumb [''a'', ''b'', ''c''] ''a'' (Some 0)"
    by (simp add: validBreadcrumb_def)
  have v2: "\<not> validBreadcrumb [''a'', ''b'', ''a'', ''c''] ''a'' (Some 1)"
    by (simp add: validBreadcrumb_def)
  have v3: "\<not> validBreadcrumb [''a'', ''b''] ''c'' (Some 5)"
    by (simp add: validBreadcrumb_def)
  have r3: "getNextNavigationStack [''a'', ''b''] ''c'' Breadcrumb (Some 5) = [''c'']"
    using breadcrumb_rule [of "[''a'', ''b'']" "''c''" "Some 5"] v3 by simp
  have r1: "getNextNavigationStack [''a'', ''b'', ''c''] ''a'' Breadcrumb (Some 0) = [''a'']"
    using breadcrumb_rule [of "[''a'', ''b'', ''c'']" "''a''" "Some 0"] v1 by auto
  have r2: "getNextNavigationStack [''a'', ''b'', ''a'', ''c''] ''a'' Breadcrumb (Some 1)
      = [''a'', ''b'', ''a'']"
    by (simp add: getNextNavigationStack_def validBreadcrumb_def Let_def slice_def sliceIndex_def)
  show ?thesis using v1 v2 v3 r1 r2 r3 by simp
qed

section \<open>URN parsing: properties\<close>


lemma js_split_nonempty: "js_split c s \<noteq> []"
  by (induction s) (auto split: list.splits)

lemma js_split_hd: "\<exists>ps. js_split c s = takeWhile (\<lambda>x. x \<noteq> c) s # ps"
  by (induction s) (auto split: list.splits)







lemma parseUrnName_closed_form:
  "parseUrnName u =
     Inr (if hasParenGroup (beforeHashOf u)
          then slice (beforeHashOf u) (lastIndexOf (beforeHashOf u) CHR ''('' + 1)
                     (lastIndexOf (beforeHashOf u) CHR '')'')
          else last (js_split CHR '':'' (beforeHashOf u)))"
proof -
  obtain ps where "js_split CHR ''#'' u = beforeHashOf u # ps"
    using js_split_hd [of "CHR ''#''" u] by (auto simp: beforeHashOf_def)
  then show ?thesis
    by (simp add: parseUrnName_def Let_def hasParenGroup_def js_split_nonempty)
qed















section \<open>URN semantics: grouping by aspect\<close>


lemma mapSet_keys: "fst ` set (mapSet k v m) = insert k (fst ` set m)"
  by (induction m) auto

lemma mapSet_entries: "set (mapSet k v m) \<subseteq> insert (k, v) (set m)"
  by (induction m) auto

lemma mapSet_distinct: "distinct (map fst m) \<Longrightarrow> distinct (map fst (mapSet k v m))"
proof (induction m)
  case Nil
  then show ?case by simp
next
  case (Cons p ps)
  have "fst ` set (mapSet k v ps) = insert k (fst ` set ps)" by (rule mapSet_keys)
  with Cons show ?case by auto
qed

lemma mapSet_lookup: "map_of (mapSet k v m) = (map_of m)(k \<mapsto> v)"
  by (induction m) (auto simp: fun_eq_iff)

lemma addAspectGroup_entries:
  "(l, us) \<in> set (addAspectGroup lab v g) \<Longrightarrow>
   (l, us) \<in> set g \<or> (l = lab \<and> us = extractUrnsFromJson v [] \<and> us \<noteq> [])"
  using mapSet_entries [of lab "extractUrnsFromJson v []" g]
  by (auto simp: addAspectGroup_def Let_def split: if_splits)

lemma addAspectGroup_keys:
  "fst ` set (addAspectGroup lab v g) =
     (if extractUrnsFromJson v [] \<noteq> [] then insert lab (fst ` set g) else fst ` set g)"
  by (simp add: addAspectGroup_def Let_def mapSet_keys)

lemma addAspectGroup_distinct:
  "distinct (map fst g) \<Longrightarrow> distinct (map fst (addAspectGroup lab v g))"
  by (simp add: addAspectGroup_def Let_def mapSet_distinct)

text \<open>A fold of steps each of which adds one labelled aspect or leaves the map alone.\<close>

lemma fold_groups:
  assumes step: "\<And>p g. step p g = (if enters p then addAspectGroup (lab p) (val p) g else g)"
  shows "distinct (map fst g) \<Longrightarrow> distinct (map fst (fold step ps g))"
    and "(l, us) \<in> set (fold step ps g) \<Longrightarrow>
         (l, us) \<in> set g \<or>
         (\<exists>p \<in> set ps. enters p \<and> l = lab p \<and> us = extractUrnsFromJson (val p) [] \<and> us \<noteq> [])"
    and "fst ` set (fold step ps g) =
         fst ` set g \<union> {lab p | p. p \<in> set ps \<and> enters p \<and> extractUrnsFromJson (val p) [] \<noteq> []}"
proof -
  show "distinct (map fst g) \<Longrightarrow> distinct (map fst (fold step ps g))"
    by (induction ps arbitrary: g) (simp_all add: step addAspectGroup_distinct)
  show "(l, us) \<in> set (fold step ps g) \<Longrightarrow>
         (l, us) \<in> set g \<or>
         (\<exists>p \<in> set ps. enters p \<and> l = lab p \<and> us = extractUrnsFromJson (val p) [] \<and> us \<noteq> [])"
  proof (induction ps arbitrary: g)
    case Nil
    then show ?case by simp
  next
    case (Cons p ps)
    from Cons.prems have "(l, us) \<in> set (fold step ps (step p g))" by simp
    from Cons.IH [OF this] show ?case
    proof
      assume "(l, us) \<in> set (step p g)"
      then show ?thesis
        using addAspectGroup_entries [of l us "lab p" "val p" g]
        by (auto simp: step split: if_splits)
    next
      assume "\<exists>q \<in> set ps. enters q \<and> l = lab q \<and> us = extractUrnsFromJson (val q) [] \<and> us \<noteq> []"
      then show ?thesis by auto
    qed
  qed
  show "fst ` set (fold step ps g) =
         fst ` set g \<union> {lab p | p. p \<in> set ps \<and> enters p \<and> extractUrnsFromJson (val p) [] \<noteq> []}"
  proof (induction ps arbitrary: g)
    case Nil
    then show ?case by simp
  next
    case (Cons p ps)
    have "fst ` set (step p g) =
        fst ` set g \<union> {lab q | q. q = p \<and> enters q \<and> extractUrnsFromJson (val q) [] \<noteq> []}"
      by (auto simp: step addAspectGroup_keys)
    then show ?case using Cons.IH [of "step p g"] by auto
  qed
qed

lemma set_withIndex: "set (withIndex xs) = {(xs ! i, i) | i. i < length xs}"
  by (auto simp: withIndex_def set_zip)


lemma listAspectLabel_priority:
  "listAspectLabel a i =
     firstPresent [truthyString (getProp a ''label''), truthyString (getProp a ''name''),
                   truthyString (getProp a ''aspectName'')]
                  (''aspect_'' @ showNat (i + 1))"
  by (simp add: listAspectLabel_def split: option.splits)

lemma mapAspectLabel_priority:
  "mapAspectLabel k v i =
     firstPresent [truthyString (getProp v ''label''), truthyString (getProp v ''name''),
                   presentKey k]
                  (''aspect_'' @ showNat (i + 1))"
  by (simp add: mapAspectLabel_def presentKey_def split: option.splits)

lemma claimed_label_list: "claimedAspectLabel None a i = listAspectLabel a i"
  by (simp add: claimedAspectLabel_def listAspectLabel_def split: option.splits)

lemma claimed_label_map:
  "truthyString (getProp v ''aspectName'') = None \<Longrightarrow>
   claimedAspectLabel (Some k) v i = mapAspectLabel k v i"
  by (simp add: claimedAspectLabel_def mapAspectLabel_def presentKey_def split: option.splits)

lemma listAspectStep_shape:
  "listAspectStep p g =
     (if isRecord (fst p) then addAspectGroup (listAspectLabel (fst p) (snd p)) (fst p) g else g)"
  by (cases p) (auto simp: listAspectStep_def isRecord_def)

lemma mapAspectStep_shape:
  "mapAspectStep p g =
     (if isRecord (snd (fst p))
      then addAspectGroup (mapAspectLabel (fst (fst p)) (snd (fst p)) (snd p)) (snd (fst p)) g
      else g)"
  by (cases p) (auto simp: mapAspectStep_def isRecord_def)

lemma groups_of_list_shape:
  "getProp raw ''aspects'' = Some (JArr items) \<Longrightarrow>
   extractAspectUrnGroups raw = fold listAspectStep (withIndex items) []"
  by (cases raw) (simp_all add: extractAspectUrnGroups_def)

lemma groups_of_map_shape:
  "getProp raw ''aspects'' = Some (JObj kvs) \<Longrightarrow>
   extractAspectUrnGroups raw = fold mapAspectStep (withIndex kvs) []"
  by (cases raw) (simp_all add: extractAspectUrnGroups_def)

lemma list_shape_groups:
  assumes "getProp raw ''aspects'' = Some (JArr items)"
  shows "distinct (map fst (extractAspectUrnGroups raw))"
    and "(l, us) \<in> set (extractAspectUrnGroups raw) \<Longrightarrow>
         us \<noteq> [] \<and> (\<exists>i < length items. isRecord (items ! i) \<and> l = listAspectLabel (items ! i) i \<and>
                        us = extractUrnsFromJson (items ! i) [])"
    and "i < length items \<Longrightarrow> isRecord (items ! i) \<Longrightarrow> extractUrnsFromJson (items ! i) [] \<noteq> [] \<Longrightarrow>
         listAspectLabel (items ! i) i \<in> fst ` set (extractAspectUrnGroups raw)"
proof -
  note eq = groups_of_list_shape [OF assms]
  note fg = fold_groups [of listAspectStep "\<lambda>p. isRecord (fst p)"
      "\<lambda>p. listAspectLabel (fst p) (snd p)" fst, OF listAspectStep_shape]
  show "distinct (map fst (extractAspectUrnGroups raw))"
    unfolding eq by (rule fg(1)) simp
  show "us \<noteq> [] \<and> (\<exists>i < length items. isRecord (items ! i) \<and> l = listAspectLabel (items ! i) i \<and>
                        us = extractUrnsFromJson (items ! i) [])"
    if "(l, us) \<in> set (extractAspectUrnGroups raw)"
  proof -
    from that fg(2) [of l us "withIndex items" "[]"]
    obtain p where p: "p \<in> set (withIndex items)" "isRecord (fst p)"
        "l = listAspectLabel (fst p) (snd p)" "us = extractUrnsFromJson (fst p) []" "us \<noteq> []"
      unfolding eq by auto
    from p(1) obtain i where "i < length items" "p = (items ! i, i)"
      by (auto simp: set_withIndex)
    with p show ?thesis by auto
  qed
  show "listAspectLabel (items ! i) i \<in> fst ` set (extractAspectUrnGroups raw)"
    if "i < length items" "isRecord (items ! i)" "extractUrnsFromJson (items ! i) [] \<noteq> []"
  proof -
    from that(1) have "(items ! i, i) \<in> set (withIndex items)" by (auto simp: set_withIndex)
    with that(2,3) show ?thesis
      unfolding eq fg(3) by force
  qed
qed

lemma map_shape_groups:
  assumes "getProp raw ''aspects'' = Some (JObj kvs)"
  shows "distinct (map fst (extractAspectUrnGroups raw))"
    and "(l, us) \<in> set (extractAspectUrnGroups raw) \<Longrightarrow>
         us \<noteq> [] \<and> (\<exists>i < length kvs. isRecord (snd (kvs ! i)) \<and>
                        l = mapAspectLabel (fst (kvs ! i)) (snd (kvs ! i)) i \<and>
                        us = extractUrnsFromJson (snd (kvs ! i)) [])"
    and "i < length kvs \<Longrightarrow> isRecord (snd (kvs ! i)) \<Longrightarrow>
         extractUrnsFromJson (snd (kvs ! i)) [] \<noteq> [] \<Longrightarrow>
         mapAspectLabel (fst (kvs ! i)) (snd (kvs ! i)) i \<in> fst ` set (extractAspectUrnGroups raw)"
proof -
  note eq = groups_of_map_shape [OF assms]
  note fg = fold_groups [of mapAspectStep "\<lambda>p. isRecord (snd (fst p))"
      "\<lambda>p. mapAspectLabel (fst (fst p)) (snd (fst p)) (snd p)" "\<lambda>p. snd (fst p)",
      OF mapAspectStep_shape]
  show "distinct (map fst (extractAspectUrnGroups raw))"
    unfolding eq by (rule fg(1)) simp
  show "us \<noteq> [] \<and> (\<exists>i < length kvs. isRecord (snd (kvs ! i)) \<and>
                        l = mapAspectLabel (fst (kvs ! i)) (snd (kvs ! i)) i \<and>
                        us = extractUrnsFromJson (snd (kvs ! i)) [])"
    if "(l, us) \<in> set (extractAspectUrnGroups raw)"
  proof -
    from that fg(2) [of l us "withIndex kvs" "[]"]
    obtain p where p: "p \<in> set (withIndex kvs)" "isRecord (snd (fst p))"
        "l = mapAspectLabel (fst (fst p)) (snd (fst p)) (snd p)"
        "us = extractUrnsFromJson (snd (fst p)) []" "us \<noteq> []"
      unfolding eq by auto
    from p(1) obtain i where "i < length kvs" "p = (kvs ! i, i)"
      by (auto simp: set_withIndex)
    with p show ?thesis by auto
  qed
  show "mapAspectLabel (fst (kvs ! i)) (snd (kvs ! i)) i \<in> fst ` set (extractAspectUrnGroups raw)"
    if "i < length kvs" "isRecord (snd (kvs ! i))" "extractUrnsFromJson (snd (kvs ! i)) [] \<noteq> []"
  proof -
    from that(1) have "(kvs ! i, i) \<in> set (withIndex kvs)" by (auto simp: set_withIndex)
    with that(2,3) show ?thesis
      unfolding eq fg(3) by force
  qed
qed

text \<open>
  \<open>groups.set(label, urns)\<close> replaces the group a label already has: of the records that
  carry a label and at least one identifier, the last one provides the group.
\<close>

lemma addAspectGroup_lookup:
  "map_of (addAspectGroup lab v g) l =
     (if extractUrnsFromJson v [] \<noteq> [] \<and> l = lab then Some (extractUrnsFromJson v [])
      else map_of g l)"
  by (simp add: addAspectGroup_def Let_def mapSet_lookup)

lemma fold_groups_untouched:
  assumes step: "\<And>p g. step p g = (if enters p then addAspectGroup (lab p) (val p) g else g)"
    and "\<forall>q \<in> set ps. \<not> (enters q \<and> extractUrnsFromJson (val q) [] \<noteq> [] \<and> lab q = l)"
  shows "map_of (fold step ps g) l = map_of g l"
  using assms(2)
proof (induction ps arbitrary: g)
  case Nil
  then show ?case by simp
next
  case (Cons p ps)
  have "map_of (step p g) l = map_of g l"
    using Cons.prems by (auto simp: step addAspectGroup_lookup)
  moreover have "map_of (fold step ps (step p g)) l = map_of (step p g) l"
    using Cons.prems by (intro Cons.IH) simp
  ultimately show ?case by simp
qed

lemma fold_groups_last:
  assumes step: "\<And>p g. step p g = (if enters p then addAspectGroup (lab p) (val p) g else g)"
    and "enters p" "extractUrnsFromJson (val p) [] \<noteq> []"
    and "\<forall>q \<in> set post. \<not> (enters q \<and> extractUrnsFromJson (val q) [] \<noteq> [] \<and> lab q = lab p)"
  shows "map_of (fold step (pre @ p # post) g) (lab p) = Some (extractUrnsFromJson (val p) [])"
proof -
  have "map_of (fold step (pre @ p # post) g) (lab p)
      = map_of (fold step post (step p (fold step pre g))) (lab p)"
    by simp
  also have "\<dots> = map_of (step p (fold step pre g)) (lab p)"
    by (rule fold_groups_untouched [of step enters lab val, OF step assms(4)])
  also have "\<dots> = Some (extractUrnsFromJson (val p) [])"
    using assms(2,3) by (simp add: step addAspectGroup_lookup)
  finally show ?thesis .
qed

lemma withIndex_split:
  assumes "i < length xs"
  shows "\<exists>pre post. withIndex xs = pre @ (xs ! i, i) # post \<and>
           (\<forall>q \<in> set post. \<exists>j. i < j \<and> j < length xs \<and> q = (xs ! j, j))"
proof -
  let ?ps = "withIndex xs"
  have len: "length ?ps = length xs" by (simp add: withIndex_def)
  have nth: "\<And>j. j < length xs \<Longrightarrow> ?ps ! j = (xs ! j, j)" by (simp add: withIndex_def)
  have "?ps = take i ?ps @ ?ps ! i # drop (Suc i) ?ps"
    using assms len by (simp add: id_take_nth_drop)
  then have split: "?ps = take i ?ps @ (xs ! i, i) # drop (Suc i) ?ps"
    using nth [OF assms] by simp
  have "\<exists>j. i < j \<and> j < length xs \<and> q = (xs ! j, j)" if "q \<in> set (drop (Suc i) ?ps)" for q
  proof -
    from that obtain m where m: "m < length (drop (Suc i) ?ps)" "q = drop (Suc i) ?ps ! m"
      by (auto simp: in_set_conv_nth)
    then have "Suc i + m < length xs" using len by simp
    moreover from m this have "q = (xs ! (Suc i + m), Suc i + m)"
      using nth [of "Suc i + m"] len by simp
    ultimately show ?thesis by (intro exI [of _ "Suc i + m"]) simp
  qed
  with split show ?thesis by blast
qed

lemma list_shape_last_wins:
  assumes "getProp raw ''aspects'' = Some (JArr items)"
    and "i < length items" "isRecord (items ! i)" "extractUrnsFromJson (items ! i) [] \<noteq> []"
    and "\<forall>j. i < j \<and> j < length items \<and> isRecord (items ! j) \<and>
             extractUrnsFromJson (items ! j) [] \<noteq> []
           \<longrightarrow> listAspectLabel (items ! j) j \<noteq> listAspectLabel (items ! i) i"
  shows "map_of (extractAspectUrnGroups raw) (listAspectLabel (items ! i) i)
           = Some (extractUrnsFromJson (items ! i) [])"
proof -
  from withIndex_split [OF assms(2)] obtain pre post where
    split: "withIndex items = pre @ (items ! i, i) # post"
    and post: "\<forall>q \<in> set post. \<exists>j. i < j \<and> j < length items \<and> q = (items ! j, j)"
    by blast
  have quiet: "\<forall>q \<in> set post. \<not> (isRecord (fst q) \<and> extractUrnsFromJson (fst q) [] \<noteq> [] \<and>
      listAspectLabel (fst q) (snd q) = listAspectLabel (fst (items ! i, i)) (snd (items ! i, i)))"
    using post assms(5) by fastforce
  show ?thesis
    unfolding groups_of_list_shape [OF assms(1)] split
    using fold_groups_last [of listAspectStep "\<lambda>p. isRecord (fst p)"
        "\<lambda>p. listAspectLabel (fst p) (snd p)" fst "(items ! i, i)" post pre "[]",
        OF listAspectStep_shape] assms(3,4) quiet
    by simp
qed

lemma map_shape_last_wins:
  assumes "getProp raw ''aspects'' = Some (JObj kvs)"
    and "i < length kvs" "isRecord (snd (kvs ! i))" "extractUrnsFromJson (snd (kvs ! i)) [] \<noteq> []"
    and "\<forall>j. i < j \<and> j < length kvs \<and> isRecord (snd (kvs ! j)) \<and>
             extractUrnsFromJson (snd (kvs ! j)) [] \<noteq> []
           \<longrightarrow> mapAspectLabel (fst (kvs ! j)) (snd (kvs ! j)) j
                 \<noteq> mapAspectLabel (fst (kvs ! i)) (snd (kvs ! i)) i"
  shows "map_of (extractAspectUrnGroups raw) (mapAspectLabel (fst (kvs ! i)) (snd (kvs ! i)) i)
           = Some (extractUrnsFromJson (snd (kvs ! i)) [])"
proof -
  from withIndex_split [OF assms(2)] obtain pre post where
    split: "withIndex kvs = pre @ (kvs ! i, i) # post"
    and post: "\<forall>q \<in> set post. \<exists>j. i < j \<and> j < length kvs \<and> q = (kvs ! j, j)"
    by blast
  have quiet: "\<forall>q \<in> set post. \<not> (isRecord (snd (fst q)) \<and>
      extractUrnsFromJson (snd (fst q)) [] \<noteq> [] \<and>
      mapAspectLabel (fst (fst q)) (snd (fst q)) (snd q)
        = mapAspectLabel (fst (fst (kvs ! i, i))) (snd (fst (kvs ! i, i))) (snd (kvs ! i, i)))"
    using post assms(5) by fastforce
  show ?thesis
    unfolding groups_of_map_shape [OF assms(1)] split
    using fold_groups_last [of mapAspectStep "\<lambda>p. isRecord (snd (fst p))"
        "\<lambda>p. mapAspectLabel (fst (fst p)) (snd (fst p)) (snd p)" "\<lambda>p. snd (fst p)"
        "(kvs ! i, i)" post pre "[]", OF mapAspectStep_shape] assms(3,4) quiet
    by simp
qed

text \<open>
  Two records labelled \<open>x\<close>: the group under \<open>x\<close> is the second record's, and the first
  record's identifier is in no group.
\<close>

lemma repeated_label_last_wins:
  "extractAspectUrnGroups repeatedLabelRaw = [(''x'', [''urn:li:corpuser:b''])]"
  by code_simp

text \<open>
  C5 (as stated, refuted). In the map shape the \<open>aspectName\<close> field is not consulted: a
  record under the key \<open>k\<close> whose only naming field is \<open>aspectName = foo\<close> is filed under
  \<open>k\<close>, where the stated priority order (aspect-name before structural key) gives \<open>foo\<close>.
\<close>

theorem aspect_name_counterexample:
  "extractAspectUrnGroups mapShapeRaw = [(''k'', [''urn:li:corpuser:x''])] \<and>
   claimedAspectLabel (Some ''k'') aspectNameRecord 0 = ''foo'' \<and>
   mapAspectLabel ''k'' aspectNameRecord 0 = ''k'' \<and>
   map_of (extractAspectUrnGroups mapShapeRaw) ''foo'' = None"
  by code_simp

text \<open>
  C5 (amended). When the \<open>aspects\<close> field is a list, the label of a record is the first
  present of: its \<open>label\<close> field, its \<open>name\<close> field, its \<open>aspectName\<close> field, and \<open>aspect_N\<close>
  (\<open>N\<close> the position from 1). When it is a map, the label is the first present of: the
  \<open>label\<close> field, the \<open>name\<close> field, the entry's key, and \<open>aspect_N\<close>; the \<open>aspectName\<close> field
  is not read there. A field is present when it is a non-empty string, a key when it is
  not empty. In the result no label occurs twice; every group is non-empty and is the
  identifier list of a record carrying that label; every record with at least one
  identifier has its label in the result, and its identifiers are the group under that
  label provided no later record with at least one identifier receives the same label
  (so of several such records with one label, the last provides the group). The single
  priority order of the claim agrees with the code on the list shape, and on the map
  shape for records without an \<open>aspectName\<close> field.
\<close>

theorem aspect_groups_by_shape:
  "(getProp raw ''aspects'' = Some (JArr items) \<longrightarrow>
      distinct (map fst (extractAspectUrnGroups raw)) \<and>
      (\<forall>l us. (l, us) \<in> set (extractAspectUrnGroups raw) \<longrightarrow>
         us \<noteq> [] \<and>
         (\<exists>i < length items. isRecord (items ! i) \<and> l = listAspectLabel (items ! i) i \<and>
              us = extractUrnsFromJson (items ! i) [])) \<and>
      (\<forall>i < length items.
         isRecord (items ! i) \<and> extractUrnsFromJson (items ! i) [] \<noteq> [] \<longrightarrow>
         listAspectLabel (items ! i) i \<in> fst ` set (extractAspectUrnGroups raw)) \<and>
      (\<forall>i < length items.
         isRecord (items ! i) \<and> extractUrnsFromJson (items ! i) [] \<noteq> [] \<and>
         (\<forall>j. i < j \<and> j < length items \<and> isRecord (items ! j) \<and>
               extractUrnsFromJson (items ! j) [] \<noteq> []
             \<longrightarrow> listAspectLabel (items ! j) j \<noteq> listAspectLabel (items ! i) i) \<longrightarrow>
         map_of (extractAspectUrnGroups raw) (listAspectLabel (items ! i) i)
           = Some (extractUrnsFromJson (items ! i) []))) \<and>
   (getProp raw ''aspects'' = Some (JObj kvs) \<longrightarrow>
      distinct (map fst (extractAspectUrnGroups raw)) \<and>
      (\<forall>l us. (l, us) \<in> set (extractAspectUrnGroups raw) \<longrightarrow>
         us \<noteq> [] \<and>
         (\<exists>i < length kvs. isRecord (snd (kvs ! i)) \<and>
              l = mapAspectLabel (fst (kvs ! i)) (snd (kvs ! i)) i \<and>
              us = extractUrnsFromJson (snd (kvs ! i)) [])) \<and>
      (\<forall>i < length kvs.
         isRecord (snd (kvs ! i)) \<and> extractUrnsFromJson (snd (kvs ! i)) [] \<noteq> [] \<longrightarrow>
         mapAspectLabel (fst (kvs ! i)) (snd (kvs ! i)) i
           \<in> fst ` set (extractAspectUrnGroups raw)) \<and>
      (\<forall>i < length kvs.
         isRecord (snd (kvs ! i)) \<and> extractUrnsFromJson (snd (kvs ! i)) [] \<noteq> [] \<and>
         (\<forall>j. i < j \<and> j < length kvs \<and> isRecord (snd (kvs ! j)) \<and>
               extractUrnsFromJson (snd (kvs ! j)) [] \<noteq> []
             \<longrightarrow> mapAspectLabel (fst (kvs ! j)) (snd (kvs ! j)) j
                   \<noteq> mapAspectLabel (fst (kvs ! i)) (snd (kvs ! i)) i) \<longrightarrow>
         map_of (extractAspectUrnGroups raw)
                (mapAspectLabel (fst (kvs ! i)) (snd (kvs ! i)) i)
           = Some (extractUrnsFromJson (snd (kvs ! i)) []))) \<and>
   listAspectLabel a n =
     firstPresent [truthyString (getProp a ''label''), truthyString (getProp a ''name''),
                   truthyString (getProp a ''aspectName'')]
                  (''aspect_'' @ showNat (n + 1)) \<and>
   mapAspectLabel k v n =
     firstPresent [truthyString (getProp v ''label''), truthyString (getProp v ''name''),
                   presentKey k]
                  (''aspect_'' @ showNat (n + 1)) \<and>
   claimedAspectLabel None a n = listAspectLabel a n \<and>
   (truthyString (getProp v ''aspectName'') = None \<longrightarrow>
      claimedAspectLabel (Some k) v n = mapAspectLabel k v n)"
proof -
  have listp: "getProp raw ''aspects'' = Some (JArr items) \<longrightarrow>
      distinct (map fst (extractAspectUrnGroups raw)) \<and>
      (\<forall>l us. (l, us) \<in> set (extractAspectUrnGroups raw) \<longrightarrow>
         us \<noteq> [] \<and>
         (\<exists>i < length items. isRecord (items ! i) \<and> l = listAspectLabel (items ! i) i \<and>
              us = extractUrnsFromJson (items ! i) [])) \<and>
      (\<forall>i < length items.
         isRecord (items ! i) \<and> extractUrnsFromJson (items ! i) [] \<noteq> [] \<longrightarrow>
         listAspectLabel (items ! i) i \<in> fst ` set (extractAspectUrnGroups raw))"
    using list_shape_groups [of raw items] by blast
  have listq: "getProp raw ''aspects'' = Some (JArr items) \<longrightarrow>
      (\<forall>i < length items.
         isRecord (items ! i) \<and> extractUrnsFromJson (items ! i) [] \<noteq> [] \<and>
         (\<forall>j. i < j \<and> j < length items \<and> isRecord (items ! j) \<and>
               extractUrnsFromJson (items ! j) [] \<noteq> []
             \<longrightarrow> listAspectLabel (items ! j) j \<noteq> listAspectLabel (items ! i) i) \<longrightarrow>
         map_of (extractAspectUrnGroups raw) (listAspectLabel (items ! i) i)
           = Some (extractUrnsFromJson (items ! i) []))"
    using list_shape_last_wins [of raw items] by blast
  have mapp: "getProp raw ''aspects'' = Some (JObj kvs) \<longrightarrow>
      distinct (map fst (extractAspectUrnGroups raw)) \<and>
      (\<forall>l us. (l, us) \<in> set (extractAspectUrnGroups raw) \<longrightarrow>
         us \<noteq> [] \<and>
         (\<exists>i < length kvs. isRecord (snd (kvs ! i)) \<and>
              l = mapAspectLabel (fst (kvs ! i)) (snd (kvs ! i)) i \<and>
              us = extractUrnsFromJson (snd (kvs ! i)) [])) \<and>
      (\<forall>i < length kvs.
         isRecord (snd (kvs ! i)) \<and> extractUrnsFromJson (snd (kvs ! i)) [] \<noteq> [] \<longrightarrow>
         mapAspectLabel (fst (kvs ! i)) (snd (kvs ! i)) i
           \<in> fst ` set (extractAspectUrnGroups raw))"
    using map_shape_groups [of raw kvs] by blast
  have mapq: "getProp raw ''aspects'' = Some (JObj kvs) \<longrightarrow>
      (\<forall>i < length kvs.
         isRecord (snd (kvs ! i)) \<and> extractUrnsFromJson (snd (kvs ! i)) [] \<noteq> [] \<and>
         (\<forall>j. i < j \<and> j < length kvs \<and> isRecord (snd (kvs ! j)) \<and>
               extractUrnsFromJson (snd (kvs ! j)) [] \<noteq> []
             \<longrightarrow> mapAspectLabel (fst (kvs ! j)) (snd (kvs ! j)) j
                   \<noteq> mapAspectLabel (fst (kvs ! i)) (snd (kvs ! i)) i) \<longrightarrow>
         map_of (extractAspectUrnGroups raw)
                (mapAspectLabel (fst (kvs ! i)) (snd (kvs ! i)) i)
           = Some (extractUrnsFromJson (snd (kvs ! i)) []))"
    using map_shape_last_wins [of raw kvs] by blast
  have lp: "listAspectLabel a n =
     firstPresent [truthyString (getProp a ''label''), truthyString (getProp a ''name''),
                   truthyString (getProp a ''aspectName'')]
                  (''aspect_'' @ showNat (n + 1))"
    by (rule listAspectLabel_priority)
  have mp: "mapAspectLabel k v n =
     firstPresent [truthyString (getProp v ''label''), truthyString (getProp v ''name''),
                   presentKey k]
                  (''aspect_'' @ showNat (n + 1))"
    by (rule mapAspectLabel_priority)
  have cl: "claimedAspectLabel None a n = listAspectLabel a n"
    by (rule claimed_label_list)
  have cm: "truthyString (getProp v ''aspectName'') = None \<longrightarrow>
      claimedAspectLabel (Some k) v n = mapAspectLabel k v n"
    using claimed_label_map [of v k n] by blast
  from listp listq have "getProp raw ''aspects'' = Some (JArr items) \<longrightarrow>
      distinct (map fst (extractAspectUrnGroups raw)) \<and>
      (\<forall>l us. (l, us) \<in> set (extractAspectUrnGroups raw) \<longrightarrow>
         us \<noteq> [] \<and>
         (\<exists>i < length items. isRecord (items ! i) \<and> l = listAspectLabel (items ! i) i \<and>
              us = extractUrnsFromJson (items ! i) [])) \<and>
      (\<forall>i < length items.
         isRecord (items ! i) \<and> extractUrnsFromJson (items ! i) [] \<noteq> [] \<longrightarrow>
         listAspectLabel (items ! i) i \<in> fst ` set (extractAspectUrnGroups raw)) \<and>
      (\<forall>i < length items.
         isRecord (items ! i) \<and> extractUrnsFromJson (items ! i) [] \<noteq> [] \<and>
         (\<forall>j. i < j \<and> j < length items \<and> isRecord (items ! j) \<and>
               extractUrnsFromJson (items ! j) [] \<noteq> []
             \<longrightarrow> listAspectLabel (items ! j) j \<noteq> listAspectLabel (items ! i) i) \<longrightarrow>
         map_of (extractAspectUrnGroups raw) (listAspectLabel (items ! i) i)
           = Some (extractUrnsFromJson (items ! i) []))"
    by (intro impI conjI) (erule (1) impE [THEN conjunct1] | simp)+
  moreover from mapp mapq have "getProp raw ''aspects'' = Some (JObj kvs) \<longrightarrow>
      distinct (map fst (extractAspectUrnGroups raw)) \<and>
      (\<forall>l us. (l, us) \<in> set (extractAspectUrnGroups raw) \<longrightarrow>
         us \<noteq> [] \<and>
         (\<exists>i < length kvs. isRecord (snd (kvs ! i)) \<and>
              l = mapAspectLabel (fst (kvs ! i)) (snd (kvs ! i)) i \<and>
              us = extractUrnsFromJson (snd (kvs ! i)) [])) \<and>
      (\<forall>i < length kvs.
         isRecord (snd (kvs ! i)) \<and> extractUrnsFromJson (snd (kvs ! i)) [] \<noteq> [] \<longrightarrow>
         mapAspectLabel (fst (kvs ! i)) (snd (kvs ! i)) i
           \<in> fst ` set (extractAspectUrnGroups raw)) \<and>
      (\<forall>i < length kvs.
         isRecord (snd (kvs ! i)) \<and> extractUrnsFromJson (snd (kvs ! i)) [] \<noteq> [] \<and>
         (\<forall>j. i < j \<and> j < length kvs \<and> isRecord (snd (kvs ! j)) \<and>
               extractUrnsFromJson (snd (kvs ! j)) [] \<noteq> []
             \<longrightarrow> mapAspectLabel (fst (kvs ! j)) (snd (kvs ! j)) j
                   \<noteq> mapAspectLabel (fst (kvs ! i)) (snd (kvs ! i)) i) \<longrightarrow>
         map_of (extractAspectUrnGroups raw)
                (mapAspectLabel (fst (kvs ! i)) (snd (kvs ! i)) i)
           = Some (extractUrnsFromJson (snd (kvs ! i)) []))"
    by (intro impI conjI) (erule (1) impE [THEN conjunct1] | simp)+
  ultimately show ?thesis
    using lp mp cl cm by (intro conjI)
qed

theorem aspect_groups_by_shape_witness:
  "getProp listShapeRaw ''aspects''
     = Some (JArr [ownershipAspect,
                   JObj [(''label'', JStr ''datasetKey''),
                         (''platform'', JStr ''urn:li:dataPlatform:hive'')]]) \<and>
   isRecord ownershipAspect \<and>
   extractUrnsFromJson ownershipAspect [] = [''urn:li:corpuser:jdoe''] \<and>
   listAspectLabel ownershipAspect 0 = ''ownership'' \<and>
   listAspectLabel (JObj [(''label'', JStr ''datasetKey''),
                          (''platform'', JStr ''urn:li:dataPlatform:hive'')]) 1 = ''datasetKey'' \<and>
   ''ownership'' \<in> fst ` set (extractAspectUrnGroups listShapeRaw) \<and>
   map_of (extractAspectUrnGroups listShapeRaw) ''ownership'' = Some [''urn:li:corpuser:jdoe''] \<and>
   getProp mapShapeRaw ''aspects'' = Some (JObj [(''k'', aspectNameRecord)]) \<and>
   isRecord aspectNameRecord \<and>
   extractUrnsFromJson aspectNameRecord [] = [''urn:li:corpuser:x''] \<and>
   mapAspectLabel ''k'' aspectNameRecord 0 = ''k'' \<and>
   ''k'' \<in> fst ` set (extractAspectUrnGroups mapShapeRaw) \<and>
   map_of (extractAspectUrnGroups mapShapeRaw) ''k'' = Some [''urn:li:corpuser:x''] \<and>
   truthyString (getProp ownershipAspect ''aspectName'') = None \<and>
   claimedAspectLabel (Some ''k'') ownershipAspect 0 = mapAspectLabel ''k'' ownershipAspect 0"
proof -
  let ?second = "JObj [(''label'', JStr ''datasetKey''),
                       (''platform'', JStr ''urn:li:dataPlatform:hive'')]"
  let ?items = "[ownershipAspect, ?second]"
  let ?kvs = "[(''k'', aspectNameRecord)]"
  note inst = aspect_groups_by_shape [of _ ?items ?kvs ownershipAspect 0 "''k''" ownershipAspect]
  have a1: "getProp listShapeRaw ''aspects'' = Some (JArr ?items)"
    by (simp add: listShapeRaw_def)
  have a2: "isRecord ownershipAspect" by (simp add: isRecord_def ownershipAspect_def)
  have a3: "extractUrnsFromJson ownershipAspect [] = [''urn:li:corpuser:jdoe'']" by code_simp
  have a4: "listAspectLabel ownershipAspect 0 = ''ownership''" by code_simp
  have a5: "listAspectLabel ?second 1 = ''datasetKey''" by code_simp
  have b1: "getProp mapShapeRaw ''aspects'' = Some (JObj ?kvs)" by (simp add: mapShapeRaw_def)
  have b2: "isRecord aspectNameRecord" by (simp add: isRecord_def aspectNameRecord_def)
  have b3: "extractUrnsFromJson aspectNameRecord [] = [''urn:li:corpuser:x'']" by code_simp
  have b4: "mapAspectLabel ''k'' aspectNameRecord 0 = ''k''" by code_simp
  have c1: "truthyString (getProp ownershipAspect ''aspectName'') = None"
    by (simp add: ownershipAspect_def)
  have i0: "?items ! 0 = ownershipAspect" "(0::nat) < length ?items" by simp_all
  have k0: "fst (?kvs ! 0) = ''k''" "snd (?kvs ! 0) = aspectNameRecord" "(0::nat) < length ?kvs"
    by simp_all
  have a3': "extractUrnsFromJson (?items ! 0) [] \<noteq> []" using a3 by simp
  have a2': "isRecord (?items ! 0)" using a2 by simp
  have b3': "extractUrnsFromJson (snd (?kvs ! 0)) [] \<noteq> []" using b3 by simp
  have b2': "isRecord (snd (?kvs ! 0))" using b2 by simp
  have later_list: "\<forall>j. 0 < j \<and> j < length ?items \<and> isRecord (?items ! j) \<and>
        extractUrnsFromJson (?items ! j) [] \<noteq> []
      \<longrightarrow> listAspectLabel (?items ! j) j \<noteq> listAspectLabel (?items ! 0) 0"
  proof (intro allI impI)
    fix j :: nat
    assume "0 < j \<and> j < length ?items \<and> isRecord (?items ! j) \<and>
        extractUrnsFromJson (?items ! j) [] \<noteq> []"
    then have "0 < j" and "j < length ?items" by blast+
    then have "j = 1" by simp
    then show "listAspectLabel (?items ! j) j \<noteq> listAspectLabel (?items ! 0) 0"
      using a4 a5 by simp
  qed
  have later_map: "\<forall>j. 0 < j \<and> j < length ?kvs \<and> isRecord (snd (?kvs ! j)) \<and>
        extractUrnsFromJson (snd (?kvs ! j)) [] \<noteq> []
      \<longrightarrow> mapAspectLabel (fst (?kvs ! j)) (snd (?kvs ! j)) j
            \<noteq> mapAspectLabel (fst (?kvs ! 0)) (snd (?kvs ! 0)) 0"
  proof (intro allI impI)
    fix j :: nat
    assume "0 < j \<and> j < length ?kvs \<and> isRecord (snd (?kvs ! j)) \<and>
        extractUrnsFromJson (snd (?kvs ! j)) [] \<noteq> []"
    then have "0 < j" and "j < length ?kvs" by blast+
    then have False by simp
    then show "mapAspectLabel (fst (?kvs ! j)) (snd (?kvs ! j)) j
            \<noteq> mapAspectLabel (fst (?kvs ! 0)) (snd (?kvs ! 0)) 0" ..
  qed
  note L = inst [of listShapeRaw, THEN conjunct1, THEN mp, OF a1]
  note L3 = L [THEN conjunct2, THEN conjunct2, THEN conjunct1, rule_format, of 0]
  note L4 = L [THEN conjunct2, THEN conjunct2, THEN conjunct2, THEN spec, of 0, THEN mp, THEN mp]
  note M = inst [of mapShapeRaw, THEN conjunct2, THEN conjunct1, THEN mp, OF b1]
  note M3 = M [THEN conjunct2, THEN conjunct2, THEN conjunct1, rule_format, of 0]
  note M4 = M [THEN conjunct2, THEN conjunct2, THEN conjunct2, THEN spec, of 0, THEN mp, THEN mp]
  have "listAspectLabel (?items ! 0) 0 \<in> fst ` set (extractAspectUrnGroups listShapeRaw)"
    by (rule L3 [OF i0(2)]) (intro conjI a2' a3')
  then have l: "''ownership'' \<in> fst ` set (extractAspectUrnGroups listShapeRaw)"
    unfolding i0(1) a4 .
  have "map_of (extractAspectUrnGroups listShapeRaw) (listAspectLabel (?items ! 0) 0)
        = Some (extractUrnsFromJson (?items ! 0) [])"
    by (rule L4 [OF i0(2)]) (intro conjI a2' a3' later_list)
  then have l2: "map_of (extractAspectUrnGroups listShapeRaw) ''ownership''
        = Some [''urn:li:corpuser:jdoe'']"
    unfolding i0(1) a4 a3 .
  have "mapAspectLabel (fst (?kvs ! 0)) (snd (?kvs ! 0)) 0
      \<in> fst ` set (extractAspectUrnGroups mapShapeRaw)"
    by (rule M3 [OF k0(3)]) (intro conjI b2' b3')
  then have m: "''k'' \<in> fst ` set (extractAspectUrnGroups mapShapeRaw)"
    unfolding k0(1,2) b4 .
  have "map_of (extractAspectUrnGroups mapShapeRaw)
             (mapAspectLabel (fst (?kvs ! 0)) (snd (?kvs ! 0)) 0)
        = Some (extractUrnsFromJson (snd (?kvs ! 0)) [])"
    by (rule M4 [OF k0(3)]) (intro conjI b2' b3' later_map)
  then have m2: "map_of (extractAspectUrnGroups mapShapeRaw) ''k'' = Some [''urn:li:corpuser:x'']"
    unfolding k0(1,2) b4 b3 .
  have c: "claimedAspectLabel (Some ''k'') ownershipAspect 0 = mapAspectLabel ''k'' ownershipAspect 0"
    by (rule inst [of mapShapeRaw, THEN conjunct2, THEN conjunct2, THEN conjunct2,
          THEN conjunct2, THEN conjunct2, THEN mp, OF c1])
  show ?thesis
    by (intro conjI) (fact a1 a2 a3 a4 a5 l l2 b1 b2 b3 b4 m m2 c1 c)+
qed

section \<open>Catalog client: normalizing a relationships response\<close>


lemma extractRelationshipItems_first_list:
  "response \<noteq> JNull \<Longrightarrow>
   extractRelationshipItems response = Inr (firstListField response wrapperNames)"
  by (simp add: extractRelationshipItems_def wrapperNames_def split: option.splits)

lemma firstListField_populated:
  "\<forall>w \<in> set ws. asArray (getProp response w) \<noteq> Some [] \<Longrightarrow>
   firstListField response ws = firstPopulatedListField response ws"
  by (induction ws) (auto split: option.splits list.splits)

lemma firstListField_none:
  "\<forall>w \<in> set ws. asArray (getProp response w) = None \<Longrightarrow> firstListField response ws = []"
  by (induction ws) auto

lemma firstListField_first:
  "asArray (getProp response w) = Some items \<Longrightarrow>
   \<forall>v \<in> set pre. asArray (getProp response v) = None \<Longrightarrow>
   firstListField response (pre @ w # post) = items"
  by (induction pre) auto



text \<open>
  C4 (amended). For every relationships response object, normalization selects the items
  of the first wrapper field, in the order \<open>relationships\<close>, \<open>entities\<close>, \<open>value\<close>,
  \<open>elements\<close>, whose value is a list, whether or not that list has items; it yields the
  empty list when no wrapper field holds a list. When no wrapper field holds an empty
  list, this is the first populated list.
\<close>

theorem relationship_items_first_list_field:
  "extractRelationshipItems (JObj kvs) = Inr (firstListField (JObj kvs) wrapperNames) \<and>
   (\<forall>pre w post items.
      wrapperNames = pre @ w # post \<and> asArray (getProp (JObj kvs) w) = Some items \<and>
      (\<forall>v \<in> set pre. asArray (getProp (JObj kvs) v) = None)
      \<longrightarrow> extractRelationshipItems (JObj kvs) = Inr items) \<and>
   ((\<forall>w \<in> set wrapperNames. asArray (getProp (JObj kvs) w) = None)
      \<longrightarrow> extractRelationshipItems (JObj kvs) = Inr []) \<and>
   ((\<forall>w \<in> set wrapperNames. asArray (getProp (JObj kvs) w) \<noteq> Some [])
      \<longrightarrow> extractRelationshipItems (JObj kvs)
            = Inr (firstPopulatedListField (JObj kvs) wrapperNames))"
proof -
  have eq: "extractRelationshipItems (JObj kvs) = Inr (firstListField (JObj kvs) wrapperNames)"
    by (rule extractRelationshipItems_first_list) simp
  have first: "extractRelationshipItems (JObj kvs) = Inr items"
    if "wrapperNames = pre @ w # post \<and> asArray (getProp (JObj kvs) w) = Some items \<and>
        (\<forall>v \<in> set pre. asArray (getProp (JObj kvs) v) = None)" for pre w post items
    using that firstListField_first [of "JObj kvs" w items pre post] unfolding eq by auto
  have none: "extractRelationshipItems (JObj kvs) = Inr []"
    if "\<forall>w \<in> set wrapperNames. asArray (getProp (JObj kvs) w) = None"
    using that firstListField_none [of wrapperNames "JObj kvs"] unfolding eq by auto
  have pop: "extractRelationshipItems (JObj kvs)
      = Inr (firstPopulatedListField (JObj kvs) wrapperNames)"
    if "\<forall>w \<in> set wrapperNames. asArray (getProp (JObj kvs) w) \<noteq> Some []"
    using that firstListField_populated [of wrapperNames "JObj kvs"] unfolding eq by auto
  from eq first none pop show ?thesis by blast
qed

theorem relationship_items_first_list_field_witness:
  "wrapperNames = [''relationships''] @ ''entities'' # [''value'', ''elements''] \<and>
   asArray (getProp entitiesOnlyResponse ''relationships'') = None \<and>
   asArray (getProp entitiesOnlyResponse ''entities'')
     = Some [JObj [(''urn'', JStr ''urn:li:dataset:d'')]] \<and>
   extractRelationshipItems entitiesOnlyResponse = Inr [JObj [(''urn'', JStr ''urn:li:dataset:d'')]]"
proof -
  let ?kvs = "[(''total'', JNum 1),
               (''entities'', JArr [JObj [(''urn'', JStr ''urn:li:dataset:d'')]])]"
  have w: "wrapperNames = [''relationships''] @ ''entities'' # [''value'', ''elements'']"
    by (simp add: wrapperNames_def)
  have n: "asArray (getProp (JObj ?kvs) ''relationships'') = None" by simp
  have e: "asArray (getProp (JObj ?kvs) ''entities'')
      = Some [JObj [(''urn'', JStr ''urn:li:dataset:d'')]]" by simp
  have "\<forall>v \<in> set [''relationships'']. asArray (getProp (JObj ?kvs) v) = None" by simp
  with relationship_items_first_list_field [of ?kvs] w e
  have "extractRelationshipItems (JObj ?kvs) = Inr [JObj [(''urn'', JStr ''urn:li:dataset:d'')]]"
    by blast
  with w n e show ?thesis by (simp add: entitiesOnlyResponse_def)
qed

text \<open>
  C4 (as stated, refuted). A wrapper field holding an empty list is selected although a
  later wrapper field holds a populated list: the first populated list has one item, the
  code returns none.
\<close>

theorem populated_list_counterexample:
  "extractRelationshipItems emptyFirstResponse = Inr [] \<and>
   firstPopulatedListField emptyFirstResponse wrapperNames
     = [JObj [(''urn'', JStr ''urn:li:dataset:d'')]] \<and>
   extractRelationshipItems emptyFirstResponse
     \<noteq> Inr (firstPopulatedListField emptyFirstResponse wrapperNames)"
  by code_simp

section \<open>Navigation actions: failure of a required fetch\<close>






text \<open>Failure of a lookup means that every endpoint variant failed.\<close>

lemma entityLoop_fails_iff:
  "(\<exists>le. entityLoop fetchPath urn attempts lastError = Inl le) \<longleftrightarrow>
   (\<forall>ep \<in> set attempts. \<exists>e. fetchPath ep = Inl e)"
  by (induction attempts arbitrary: lastError) (auto split: sum.splits)

lemma fetchEntity_fails_iff:
  "(\<exists>e. fetchEntity fetch token baseUrl urn = Inl e) \<longleftrightarrow>
   (\<forall>ep \<in> set (entityAttempts urn). \<exists>e. fetchJson fetch token baseUrl ep = Inl e)"
proof -
  have "(\<exists>e. fetchEntity fetch token baseUrl urn = Inl e) \<longleftrightarrow>
        (\<exists>le. entityLoop (fetchJson fetch token baseUrl) urn (entityAttempts urn) None = Inl le)"
    by (auto simp: fetchEntity_def Let_def split: sum.splits)
  then show ?thesis by (simp only: entityLoop_fails_iff)
qed

lemma relationshipLoop_fails_iff:
  "(\<exists>le. relationshipLoop fetchPath attempts lastError = Inl le) \<longleftrightarrow>
   (\<forall>ep \<in> set attempts.
      (\<exists>e. fetchPath ep = Inl e) \<or>
      (\<exists>j e. fetchPath ep = Inr j \<and> relationshipsOfResponse j = Inl e))"
  by (induction attempts arbitrary: lastError) (auto split: sum.splits)

lemma fetchRelationships_fails_iff:
  "(\<exists>e. fetchRelationships fetch token baseUrl urn dir = Inl e) \<longleftrightarrow>
   (\<forall>ep \<in> set (relationshipAttempts urn dir).
      (\<exists>e. fetchJson fetch token baseUrl ep = Inl e) \<or>
      (\<exists>j e. fetchJson fetch token baseUrl ep = Inr j \<and> relationshipsOfResponse j = Inl e))"
proof -
  have "(\<exists>e. fetchRelationships fetch token baseUrl urn dir = Inl e) \<longleftrightarrow>
        (\<exists>le. relationshipLoop (fetchJson fetch token baseUrl) (relationshipAttempts urn dir) None
                = Inl le)"
    by (auto simp: fetchRelationships_def Let_def split: sum.splits)
  then show ?thesis by (simp only: relationshipLoop_fails_iff)
qed

lemma failedAction_frame:
  "entitiesByUrn (failedAction st e) = entitiesByUrn st"
  "navStack (failedAction st e) = navStack st"
  "neighborhood (failedAction st e) = neighborhood st"
  "centerId (failedAction st e) = centerId st"
  "urnInput (failedAction st e) = urnInput st"
  "inputError (failedAction st e) = errorText e"
  "isLoading (failedAction st e) = False"
  by (simp_all add: failedAction_def)







section \<open>Navigation actions: success and placeholders\<close>


lemma parseUrnName_urnName: "parseUrnName n = Inr (urnName n)"
  by (simp add: urnName_def parseUrnName_closed_form)

lemma merge_untouched:
  "\<forall>e \<in> set es. obj_id e \<noteq> k \<Longrightarrow>
   fold cachePut es m k = m k"
  by (induction es arbitrary: m) (auto simp: cachePut_def)

lemma merge_has_entry_key:
  "\<exists>p \<in> set es. obj_id p = k \<Longrightarrow>
   \<exists>e \<in> set es. obj_id e = k \<and>
     fold cachePut es m k = Some e"
proof (induction es arbitrary: m)
  case Nil
  then show ?case by simp
next
  case (Cons a es)
  show ?case
  proof (cases "\<exists>e \<in> set es. obj_id e = k")
    case True
    from Cons.IH [OF True, of "cachePut a m"] show ?thesis by auto
  next
    case False
    with Cons.prems have ak: "obj_id a = k" by auto
    from False have "fold cachePut es
        (cachePut a m) k = cachePut a m k"
      by (intro merge_untouched) auto
    moreover have "cachePut a m k = Some a" using ak by (simp add: cachePut_def)
    ultimately have "fold cachePut (a # es) m k = Some a" by simp
    with ak show ?thesis by (intro bexI [of _ a]) simp_all
  qed
qed

lemma merge_has_entry:
  "p \<in> set es \<Longrightarrow>
   \<exists>e \<in> set es. obj_id e = obj_id p \<and>
     fold cachePut es m (obj_id p) = Some e"
  by (rule merge_has_entry_key) blast

lemma merge_only_candidate:
  assumes "p \<in> set es" and "\<forall>e \<in> set es. obj_id e = obj_id p \<longrightarrow> e = p"
  shows "fold cachePut es m (obj_id p) = Some p"
  using merge_has_entry [OF assms(1), of m] assms(2) by auto

lemma committedAction_fields:
  "entitiesByUrn (committedAction fetch token baseUrl st c inc out mode idx)
     = mergeEntities (entitiesByUrn st) c
         (map (resolveNeighbor fetch token baseUrl)
            (neighborUrnsOf (setFrom (map rel_urn inc))
               (setFrom (map rel_urn out @ jsonDependencyUrnsOf c))
               (previousUrnOf (getNextNavigationStack (navStack st) (obj_id c) mode idx))
               (obj_id c)))"
  "navStack (committedAction fetch token baseUrl st c inc out mode idx)
     = getNextNavigationStack (navStack st) (obj_id c) mode idx"
  "centerId (committedAction fetch token baseUrl st c inc out mode idx) = Some (obj_id c)"
  "urnInput (committedAction fetch token baseUrl st c inc out mode idx) = obj_id c"
  "inputError (committedAction fetch token baseUrl st c inc out mode idx) = inputError st"
  "isLoading (committedAction fetch token baseUrl st c inc out mode idx) = False"
  "neighborhood (committedAction fetch token baseUrl st c inc out mode idx)
     = Some \<lparr> centerUrn = obj_id c,
              previousUrn = previousUrnOf (getNextNavigationStack (navStack st) (obj_id c) mode idx),
              parentUrns = setFrom (map rel_urn inc),
              dependencyUrns = setFrom (map rel_urn out @ jsonDependencyUrnsOf c),
              aspectLabelsByUrn = aspectLabelsByUrnOf c,
              edges = dedupeEdges (discoveredEdges c inc out
                        (previousUrnOf (getNextNavigationStack (navStack st) (obj_id c) mode idx))) \<rparr>"
  by (simp_all add: committedAction_def Let_def)

lemma loadNeighborhood_success:
  assumes "trim urn \<noteq> []"
    and "fetchEntity fetch token baseUrl (trim urn) = Inr c"
    and "fetchRelationships fetch token baseUrl (obj_id c) INCOMING = Inr inc"
    and "fetchRelationships fetch token baseUrl (obj_id c) OUTGOING = Inr out"
  shows "loadNeighborhood fetch race token baseUrl st urn optMode idx
     = committedAction fetch token baseUrl (st\<lparr> isLoading := True, inputError := [] \<rparr>) c inc out
         (case optMode of Some m \<Rightarrow> m | None \<Rightarrow> Node) idx"
  using assms by (simp add: loadNeighborhood_def Let_def promiseAll2_def)

lemma resolveNeighbor_id_placeholder:
  "fetchEntity fetch token baseUrl n = Inl e \<Longrightarrow>
   resolveNeighbor fetch token baseUrl n = placeholderEntity n"
  by (simp add: resolveNeighbor_def)

lemma placeholder_fields:
  "obj_id (placeholderEntity n) = n"
  "obj_type (placeholderEntity n) = parseUrnType n"
  "obj_name (placeholderEntity n) = urnName n"
  "obj_raw (placeholderEntity n) = JObj [(''urn'', JStr n), (''unavailable'', JBool True)]"
  by (simp_all add: placeholderEntity_def)


lemma merge_last_candidate:
  assumes "obj_id p = k" and "\<forall>e \<in> set es2. obj_id e \<noteq> k"
  shows "fold cachePut (es1 @ p # es2) m k = Some p"
proof -
  have "fold cachePut (es1 @ p # es2) m k = fold cachePut es2 (cachePut p (fold cachePut es1 m)) k"
    by simp
  also have "\<dots> = cachePut p (fold cachePut es1 m) k"
    using assms(2) by (rule merge_untouched)
  also have "\<dots> = Some p"
    using assms(1) by (simp add: cachePut_def)
  finally show ?thesis .
qed

lemma merge_last_neighbor:
  assumes "ns = pre @ m # post"
    and "obj_id (f m) = k" and "\<forall>x \<in> set post. obj_id (f x) \<noteq> k"
  shows "fold cachePut (map f ns) m0 k = Some (f m)"
proof -
  have "map f ns = map f pre @ f m # map f post" using assms(1) by simp
  moreover have "\<forall>e \<in> set (map f post). obj_id e \<noteq> k" using assms(3) by simp
  ultimately show ?thesis using merge_last_candidate [OF assms(2), of "map f post" "map f pre" m0]
    by simp
qed

text \<open>
  C10 (as stated, refuted). The lookup of the neighbor \<open>job1\<close> fails, the center and both
  relationship lookups succeed, and the action succeeds; but the lookup of the later
  neighbor \<open>downstream1\<close> answers with a payload whose \<open>urn\<close> is \<open>job1\<close>, that entity is
  stored under \<open>job1\<close> after the placeholder, and the published cache holds no
  placeholder: the failed neighbor appears as the other lookup's entity.
\<close>

theorem aliased_neighbor_counterexample:
  "trim ''urn:li:dataset:c'' \<noteq> [] \<and>
   fetchEntity aliasNetwork [] ''/gms'' (trim ''urn:li:dataset:c'') = Inr bareC \<and>
   fetchRelationships aliasNetwork [] ''/gms'' (obj_id bareC) INCOMING = Inr incomingC \<and>
   fetchRelationships aliasNetwork [] ''/gms'' (obj_id bareC) OUTGOING = Inr outgoingC \<and>
   neighborsOfAction initialState bareC incomingC outgoingC None None
     = [''urn:li:dataJob:job1'', ''urn:li:dataset:downstream1''] \<and>
   isl (fetchEntity aliasNetwork [] ''/gms'' ''urn:li:dataJob:job1'') \<and>
   fetchEntity aliasNetwork [] ''/gms'' ''urn:li:dataset:downstream1'' = Inr aliasedJob \<and>
   inputError (loadNeighborhood aliasNetwork False [] ''/gms'' initialState ''urn:li:dataset:c'' None None)
     = [] \<and>
   centerId (loadNeighborhood aliasNetwork False [] ''/gms'' initialState ''urn:li:dataset:c'' None None)
     = Some ''urn:li:dataset:c'' \<and>
   entitiesByUrn (loadNeighborhood aliasNetwork False [] ''/gms'' initialState ''urn:li:dataset:c'' None None)
       ''urn:li:dataJob:job1''
     = Some aliasedJob \<and>
   aliasedJob \<noteq> placeholderEntity ''urn:li:dataJob:job1'' \<and>
   placeholderEntity ''urn:li:dataJob:job1''
     \<notin> ran (entitiesByUrn (loadNeighborhood aliasNetwork False [] ''/gms'' initialState
                               ''urn:li:dataset:c'' None None))"
proof -
  let ?job = "''urn:li:dataJob:job1''"
  let ?down = "''urn:li:dataset:downstream1''"
  let ?st' = "loadNeighborhood aliasNetwork False [] ''/gms'' initialState ''urn:li:dataset:c'' None None"
  have h1: "trim ''urn:li:dataset:c'' \<noteq> []" by code_simp
  have h2: "fetchEntity aliasNetwork [] ''/gms'' (trim ''urn:li:dataset:c'') = Inr bareC"
    by code_simp
  have h3: "fetchRelationships aliasNetwork [] ''/gms'' (obj_id bareC) INCOMING = Inr incomingC"
    by code_simp
  have h4: "fetchRelationships aliasNetwork [] ''/gms'' (obj_id bareC) OUTGOING = Inr outgoingC"
    by code_simp
  have ns: "neighborsOfAction initialState bareC incomingC outgoingC None None = [?job, ?down]"
    by code_simp
  have fails: "isl (fetchEntity aliasNetwork [] ''/gms'' ?job)" by code_simp
  have down: "fetchEntity aliasNetwork [] ''/gms'' ?down = Inr aliasedJob" by code_simp
  have r1: "resolveNeighbor aliasNetwork [] ''/gms'' ?job = placeholderEntity ?job"
    using fails by (auto simp: resolveNeighbor_def isl_def)
  have r2: "resolveNeighbor aliasNetwork [] ''/gms'' ?down = aliasedJob"
    using down by (simp add: resolveNeighbor_def)
  have differ: "aliasedJob \<noteq> placeholderEntity ?job"
    by (simp add: aliasedJob_def placeholderEntity_def)
  have idc: "obj_id bareC = ''urn:li:dataset:c''" by (simp add: bareC_def)
  have bare: "bareC \<noteq> placeholderEntity ?job"
    by (simp add: bareC_def placeholderEntity_def)
  note eq = loadNeighborhood_success [OF h1 h2 h3 h4, of False initialState None None]
  have "entitiesByUrn ?st'
      = mergeEntities (entitiesByUrn initialState) bareC
          (map (resolveNeighbor aliasNetwork [] ''/gms'')
               (neighborsOfAction initialState bareC incomingC outgoingC None None))"
    unfolding eq committedAction_fields neighborsOfAction_def by simp
  then have cache: "entitiesByUrn ?st'
      = [''urn:li:dataset:c'' \<mapsto> bareC, ?job \<mapsto> aliasedJob]"
    unfolding ns
    by (simp add: mergeEntities_def cachePut_def r1 r2 idc initialState_def
        placeholder_fields aliasedJob_def)
  have err: "inputError ?st' = []" and cen: "centerId ?st' = Some ''urn:li:dataset:c''"
    unfolding eq committedAction_fields by (simp_all add: idc)
  have entry: "entitiesByUrn ?st' ?job = Some aliasedJob"
    unfolding cache by simp
  have absent: "placeholderEntity ?job \<notin> ran (entitiesByUrn ?st')"
    unfolding cache using differ bare by (auto simp: ran_def split: if_splits)
  show ?thesis
    by (intro conjI) (fact h1 h2 h3 h4 ns fails down err cen entry differ absent)+
qed

text \<open>
  C10 (amended). When the target entity and both relationship lookups succeed, the action
  succeeds (no error message, the center and the Neighborhood are those of the resolved
  target) whatever becomes of the neighbor lookups. A neighbor whose lookup fails is
  resolved to the placeholder entity: its identifier, the type and the name that the
  parsing rules give for that identifier, and the payload \<open>{urn, unavailable: true}\<close>. The
  resolved neighbor entities are merged into the cache in neighbor order, each under the
  identifier it carries, a later one replacing an earlier one. So the published cache has
  an entry under the failed neighbor's identifier: the resolution of the last neighbor
  whose resolved entity carries that identifier. It is the placeholder provided no
  neighbor after the failed one resolved to an entity carrying the failed identifier.
\<close>

theorem failed_neighbor_becomes_placeholder:
  assumes "trim urn \<noteq> []"
    and "fetchEntity fetch token baseUrl (trim urn) = Inr c"
    and "fetchRelationships fetch token baseUrl (obj_id c) INCOMING = Inr inc"
    and "fetchRelationships fetch token baseUrl (obj_id c) OUTGOING = Inr out"
    and "n \<in> set (neighborsOfAction st c inc out optMode idx)"
    and "fetchEntity fetch token baseUrl n = Inl e"
  shows "inputError (loadNeighborhood fetch race token baseUrl st urn optMode idx) = [] \<and>
         centerId (loadNeighborhood fetch race token baseUrl st urn optMode idx) = Some (obj_id c) \<and>
         (\<exists>nb. neighborhood (loadNeighborhood fetch race token baseUrl st urn optMode idx) = Some nb \<and>
               centerUrn nb = obj_id c) \<and>
         entitiesByUrn (loadNeighborhood fetch race token baseUrl st urn optMode idx)
           = mergeEntities (entitiesByUrn st) c
               (map (resolveNeighbor fetch token baseUrl)
                    (neighborsOfAction st c inc out optMode idx)) \<and>
         resolveNeighbor fetch token baseUrl n = placeholderEntity n \<and>
         obj_id (placeholderEntity n) = n \<and>
         obj_type (placeholderEntity n) = parseUrnType n \<and>
         parseUrnName n = Inr (obj_name (placeholderEntity n)) \<and>
         obj_raw (placeholderEntity n) = JObj [(''urn'', JStr n), (''unavailable'', JBool True)] \<and>
         (\<exists>pre m post.
              neighborsOfAction st c inc out optMode idx = pre @ m # post \<and>
              obj_id (resolveNeighbor fetch token baseUrl m) = n \<and>
              (\<forall>x \<in> set post. obj_id (resolveNeighbor fetch token baseUrl x) \<noteq> n) \<and>
              entitiesByUrn (loadNeighborhood fetch race token baseUrl st urn optMode idx) n
                = Some (resolveNeighbor fetch token baseUrl m)) \<and>
         (\<forall>pre post.
              neighborsOfAction st c inc out optMode idx = pre @ n # post \<and>
              (\<forall>x \<in> set post. obj_id (resolveNeighbor fetch token baseUrl x) \<noteq> n) \<longrightarrow>
              entitiesByUrn (loadNeighborhood fetch race token baseUrl st urn optMode idx) n
                = Some (placeholderEntity n))"
proof -
  let ?st' = "loadNeighborhood fetch race token baseUrl st urn optMode idx"
  let ?ns = "neighborsOfAction st c inc out optMode idx"
  let ?f = "resolveNeighbor fetch token baseUrl"
  let ?es = "map ?f ?ns"
  let ?m0 = "cachePut c (entitiesByUrn st)"
  note eq = loadNeighborhood_success [OF assms(1-4), of race st optMode idx]
  have res: "?f n = placeholderEntity n"
    using assms(6) by (rule resolveNeighbor_id_placeholder)
  have cache: "entitiesByUrn ?st' = mergeEntities (entitiesByUrn st) c ?es"
    unfolding eq committedAction_fields neighborsOfAction_def by simp
  then have cache': "entitiesByUrn ?st' = fold cachePut ?es ?m0"
    by (simp add: mergeEntities_def)
  have idn: "obj_id (?f n) = n" unfolding res by (simp add: placeholder_fields)
  have "\<exists>x \<in> set ?ns. obj_id (?f x) = n" using assms(5) idn by blast
  then obtain pre m post where split: "?ns = pre @ m # post" "obj_id (?f m) = n"
      "\<forall>x \<in> set post. \<not> obj_id (?f x) = n"
    using split_list_last_prop [of ?ns "\<lambda>x. obj_id (?f x) = n"] by blast
  have last: "\<exists>pre m post. ?ns = pre @ m # post \<and> obj_id (?f m) = n \<and>
      (\<forall>x \<in> set post. obj_id (?f x) \<noteq> n) \<and> entitiesByUrn ?st' n = Some (?f m)"
    using split merge_last_neighbor [OF split(1), of ?f n ?m0] unfolding cache' by blast
  have only: "\<forall>pre post. ?ns = pre @ n # post \<and> (\<forall>x \<in> set post. obj_id (?f x) \<noteq> n) \<longrightarrow>
      entitiesByUrn ?st' n = Some (placeholderEntity n)"
  proof (intro allI impI)
    fix pre post
    assume h: "?ns = pre @ n # post \<and> (\<forall>x \<in> set post. obj_id (?f x) \<noteq> n)"
    then have "fold cachePut ?es ?m0 n = Some (?f n)"
      using merge_last_neighbor [of ?ns pre n post ?f n ?m0] idn by blast
    then show "entitiesByUrn ?st' n = Some (placeholderEntity n)"
      unfolding cache' res .
  qed
  have "inputError ?st' = []" "centerId ?st' = Some (obj_id c)"
    "\<exists>nb. neighborhood ?st' = Some nb \<and> centerUrn nb = obj_id c"
    unfolding eq committedAction_fields by simp_all
  moreover have "obj_id (placeholderEntity n) = n"
    "obj_type (placeholderEntity n) = parseUrnType n"
    "parseUrnName n = Inr (obj_name (placeholderEntity n))"
    "obj_raw (placeholderEntity n) = JObj [(''urn'', JStr n), (''unavailable'', JBool True)]"
    by (simp_all add: placeholder_fields parseUrnName_urnName)
  ultimately show ?thesis
    using cache res last only by (intro conjI)
qed

theorem failed_neighbor_becomes_placeholder_witness:
  "trim '' urn:li:dataset:c '' \<noteq> [] \<and>
   fetchEntity sampleNetwork [] ''/gms'' (trim '' urn:li:dataset:c '') = Inr entityC \<and>
   fetchRelationships sampleNetwork [] ''/gms'' (obj_id entityC) INCOMING = Inr incomingC \<and>
   fetchRelationships sampleNetwork [] ''/gms'' (obj_id entityC) OUTGOING = Inr outgoingC \<and>
   neighborsOfAction initialState entityC incomingC outgoingC None None
     = [] @ ''urn:li:dataJob:job1'' # [''urn:li:dataset:downstream1'', ''urn:li:corpuser:owner1''] \<and>
   isl (fetchEntity sampleNetwork [] ''/gms'' ''urn:li:dataJob:job1'') \<and>
   list_all (\<lambda>x. obj_id (resolveNeighbor sampleNetwork [] ''/gms'' x) \<noteq> ''urn:li:dataJob:job1'')
     [''urn:li:dataset:downstream1'', ''urn:li:corpuser:owner1''] \<and>
   inputError (loadNeighborhood sampleNetwork False [] ''/gms'' initialState '' urn:li:dataset:c '' None None)
     = [] \<and>
   centerId (loadNeighborhood sampleNetwork False [] ''/gms'' initialState '' urn:li:dataset:c '' None None)
     = Some ''urn:li:dataset:c'' \<and>
   entitiesByUrn (loadNeighborhood sampleNetwork False [] ''/gms'' initialState '' urn:li:dataset:c '' None None)
       ''urn:li:dataJob:job1''
     = Some \<lparr> obj_id = ''urn:li:dataJob:job1'', obj_type = ''dataJob'', obj_name = ''job1'',
              obj_raw = JObj [(''urn'', JStr ''urn:li:dataJob:job1''), (''unavailable'', JBool True)] \<rparr>"
proof -
  let ?n = "''urn:li:dataJob:job1''"
  let ?post = "[''urn:li:dataset:downstream1'', ''urn:li:corpuser:owner1'']"
  let ?st' = "loadNeighborhood sampleNetwork False [] ''/gms'' initialState '' urn:li:dataset:c '' None None"
  have h1: "trim '' urn:li:dataset:c '' \<noteq> []" by code_simp
  have h2: "fetchEntity sampleNetwork [] ''/gms'' (trim '' urn:li:dataset:c '') = Inr entityC"
    by code_simp
  have h3: "fetchRelationships sampleNetwork [] ''/gms'' (obj_id entityC) INCOMING = Inr incomingC"
    by code_simp
  have h4: "fetchRelationships sampleNetwork [] ''/gms'' (obj_id entityC) OUTGOING = Inr outgoingC"
    by code_simp
  have ns: "neighborsOfAction initialState entityC incomingC outgoingC None None = [] @ ?n # ?post"
    by code_simp
  have h5: "?n \<in> set (neighborsOfAction initialState entityC incomingC outgoingC None None)"
    unfolding ns by simp
  have fails: "isl (fetchEntity sampleNetwork [] ''/gms'' ?n)" by code_simp
  then obtain e where h6: "fetchEntity sampleNetwork [] ''/gms'' ?n = Inl e"
    by (auto simp: isl_def)
  have later: "list_all (\<lambda>x. obj_id (resolveNeighbor sampleNetwork [] ''/gms'' x) \<noteq> ?n) ?post"
    by code_simp
  then have later': "\<forall>x \<in> set ?post. obj_id (resolveNeighbor sampleNetwork [] ''/gms'' x) \<noteq> ?n"
    unfolding list_all_iff .
  have ph: "placeholderEntity ?n
      = \<lparr> obj_id = ''urn:li:dataJob:job1'', obj_type = ''dataJob'', obj_name = ''job1'',
          obj_raw = JObj [(''urn'', JStr ''urn:li:dataJob:job1''), (''unavailable'', JBool True)] \<rparr>"
    by code_simp
  have idc: "obj_id entityC = ''urn:li:dataset:c''" by (simp add: entityC_def)
  note inst = failed_neighbor_becomes_placeholder [OF h1 h2 h3 h4 h5 h6, of False]
  have err: "inputError ?st' = []"
    by (rule inst [THEN conjunct1])
  have cen: "centerId ?st' = Some ''urn:li:dataset:c''"
    using inst [THEN conjunct2, THEN conjunct1] unfolding idc .
  have "\<forall>pre post.
      neighborsOfAction initialState entityC incomingC outgoingC None None = pre @ ?n # post \<and>
      (\<forall>x \<in> set post. obj_id (resolveNeighbor sampleNetwork [] ''/gms'' x) \<noteq> ?n) \<longrightarrow>
      entitiesByUrn ?st' ?n = Some (placeholderEntity ?n)"
    by (rule inst [THEN conjunct2, THEN conjunct2, THEN conjunct2, THEN conjunct2,
          THEN conjunct2, THEN conjunct2, THEN conjunct2, THEN conjunct2, THEN conjunct2,
          THEN conjunct2])
  from this [THEN spec, THEN spec, THEN mp, OF conjI, OF ns later']
  have entry: "entitiesByUrn ?st' ?n
      = Some \<lparr> obj_id = ''urn:li:dataJob:job1'', obj_type = ''dataJob'', obj_name = ''job1'',
          obj_raw = JObj [(''urn'', JStr ''urn:li:dataJob:job1''), (''unavailable'', JBool True)] \<rparr>"
    unfolding ph .
  show ?thesis
    by (intro conjI) (fact h1 h2 h3 h4 ns fails later err cen entry)+
qed

section \<open>Navigation actions: the published edges\<close>


lemma dedupBy_subset: "set (dedupBy f seen xs) \<subseteq> set xs"
  by (induction xs arbitrary: seen) auto






















text \<open>
  The joined key is not injective on triples: an edge whose target contains \<open>|\<close> and an
  edge whose label contains \<open>|\<close> can share a key, and then only the first discovered of
  the two is published although their triples differ.
\<close>

lemma joined_key_collision:
  "edgeTriple barInTarget \<noteq> edgeTriple barInType \<and>
   edgeKey barInTarget = edgeKey barInType \<and>
   dedupeEdges [barInTarget, barInType] = [barInTarget] \<and>
   firstByTriple [barInTarget, barInType] = [barInTarget, barInType]"
  by code_simp

section \<open>Radial layout engine: roles, order and placement\<close>


lemma fold_setAdd_set: "set (fold setAdd xs acc) = set acc \<union> set xs"
  by (induction xs arbitrary: acc) (auto simp: setAdd_def)



lemma setFrom_set: "set (setFrom xs) = set xs"
  by (simp add: setFrom_def fold_setAdd_set)



lemma insertSorted_set: "set (insertSorted cmp x ys) = insert x (set ys)"
  by (induction ys) auto

lemma jsSort_set: "set (jsSort cmp xs) = set xs"
  by (induction xs) (simp_all add: jsSort_def insertSorted_set)

lemma jsSort_Cons: "jsSort cmp (x # xs) = insertSorted cmp x (jsSort cmp xs)"
  by (simp add: jsSort_def)

lemma insertSorted_sorted:
  assumes "totalPreorder cmp"
  shows "sorted_wrt (\<lambda>a b. cmp a b \<le> 0) ys \<Longrightarrow> sorted_wrt (\<lambda>a b. cmp a b \<le> 0) (insertSorted cmp x ys)"
proof (induction ys)
  case Nil
  then show ?case by simp
next
  case (Cons y ys)
  from assms have tot: "\<And>a b. cmp a b \<le> 0 \<or> cmp b a \<le> 0"
    and tr: "\<And>a b c. cmp a b \<le> 0 \<Longrightarrow> cmp b c \<le> 0 \<Longrightarrow> cmp a c \<le> 0"
    unfolding totalPreorder_def by blast+
  show ?case
  proof (cases "cmp x y \<le> 0")
    case True
    with Cons.prems tr show ?thesis by auto
  next
    case False
    with tot [of x y] have "cmp y x \<le> 0" by simp
    with Cons False show ?thesis by (auto simp: insertSorted_set)
  qed
qed

lemma jsSort_sorted:
  "totalPreorder cmp \<Longrightarrow> sorted_wrt (\<lambda>a b. cmp a b \<le> 0) (jsSort cmp xs)"
  by (induction xs) (simp_all add: jsSort_def insertSorted_sorted)

lemma mapSet_lookup': "map_of (mapSet k v m) = (map_of m)(k \<mapsto> v)"
  by (induction m) (auto simp: fun_eq_iff)

lemma mapSet_key_list: "map fst (mapSet k v m) = setAdd k (map fst m)"
  by (induction m) (auto simp: setAdd_def)

lemma groups_fold_keys:
  "map fst (fold (groupStep L) ds G) = fold setAdd (map (groupLabelOf L) ds) (map fst G)"
  by (induction ds arbitrary: G) (simp_all add: groupStep_def Let_def mapSet_key_list)

lemma groups_fold_lookup:
  "map_of (fold (groupStep L) ds G) l =
     (case map_of G l of
        Some c \<Rightarrow> Some (c @ filter (\<lambda>u. groupLabelOf L u = l) ds)
      | None \<Rightarrow> if l \<in> groupLabelOf L ` set ds
                then Some (filter (\<lambda>u. groupLabelOf L u = l) ds) else None)"
proof (induction ds arbitrary: G)
  case Nil
  then show ?case by (simp split: option.splits)
next
  case (Cons d ds)
  show ?case
    unfolding fold_simps Cons
    by (auto simp: groupStep_def Let_def mapSet_lookup' split: option.splits)
qed


lemma grouped_dependencies_spec:
  "groupedDependenciesOf cmp nb cache =
     map (\<lambda>l. (l, jsSort cmp (filter (\<lambda>u. groupLabelOf (aspectLabelsByUrn nb) u = l)
                                  (plottable cache (previousUrn nb) (dependencyUrns nb)))))
         (jsSort cmp (setFrom (map (groupLabelOf (aspectLabelsByUrn nb))
                                   (plottable cache (previousUrn nb) (dependencyUrns nb)))))"
proof -
  let ?L = "aspectLabelsByUrn nb"
  let ?ds = "plottable cache (previousUrn nb) (dependencyUrns nb)"
  let ?G = "dependencyGroupsOf nb cache"
  have keys: "map fst ?G = setFrom (map (groupLabelOf ?L) ?ds)"
    by (simp add: dependencyGroupsOf_def groups_fold_keys setFrom_def)
  have look: "(case map_of ?G l of Some us \<Rightarrow> us | None \<Rightarrow> [])
      = filter (\<lambda>u. groupLabelOf ?L u = l) ?ds"
    if "l \<in> groupLabelOf ?L ` set ?ds" for l
    using that by (simp add: dependencyGroupsOf_def groups_fold_lookup)
  have "map (\<lambda>l. (l, jsSort cmp (case map_of ?G l of Some us \<Rightarrow> us | None \<Rightarrow> [])))
            (jsSort cmp (setFrom (map (groupLabelOf ?L) ?ds)))
      = map (\<lambda>l. (l, jsSort cmp (filter (\<lambda>u. groupLabelOf ?L u = l) ?ds)))
            (jsSort cmp (setFrom (map (groupLabelOf ?L) ?ds)))"
  proof (rule map_cong [OF refl])
    fix l assume "l \<in> set (jsSort cmp (setFrom (map (groupLabelOf ?L) ?ds)))"
    then have "l \<in> groupLabelOf ?L ` set ?ds" by (simp add: jsSort_set setFrom_set)
    then show "(l, jsSort cmp (case map_of ?G l of Some us \<Rightarrow> us | None \<Rightarrow> []))
        = (l, jsSort cmp (filter (\<lambda>u. groupLabelOf ?L u = l) ?ds))"
      by (simp only: look)
  qed
  then show ?thesis
    by (simp add: groupedDependenciesOf_def Let_def keys)
qed


lemma plottable_set:
  "set (plottable cache prev urns) = {u \<in> set urns. inCache cache u \<and> Some u \<noteq> prev}"
  by (auto simp: plottable_def)

lemma grouped_members_plottable:
  "g \<in> set (groupedDependenciesOf cmp nb cache) \<Longrightarrow>
   set (snd g) \<subseteq> set (plottable cache (previousUrn nb) (dependencyUrns nb))"
  by (auto simp: grouped_dependencies_spec jsSort_set)

lemma distinctPrevious_set:
  "set (distinctPrevious prev center) \<subseteq> {u. prev = Some u}"
  by (auto simp: distinctPrevious_def split: option.splits if_splits)

lemma graphNeighborUrns_members:
  "u \<in> set (graphNeighborUrns cmp nb center cache) \<Longrightarrow>
   previousUrn nb = Some u \<or>
   (inCache cache u \<and> (u \<in> set (parentUrns nb) \<or> u \<in> set (dependencyUrns nb)))"
proof -
  assume "u \<in> set (graphNeighborUrns cmp nb center cache)"
  then consider "u \<in> set (distinctPrevious (previousUrn nb) center)"
    | "u \<in> set (sortedParentsOf cmp nb cache)"
    | g where "g \<in> set (groupedDependenciesOf cmp nb cache)" "u \<in> set (snd g)"
    by (auto simp: graphNeighborUrns_def Let_def setFrom_set)
  then show ?thesis
  proof cases
    case 1
    then show ?thesis using distinctPrevious_set by fastforce
  next
    case 2
    then show ?thesis by (simp add: sortedParentsOf_def jsSort_set plottable_set)
  next
    case 3
    then show ?thesis using grouped_members_plottable [OF 3(1)] by (auto simp: plottable_set)
  qed
qed



lemma withIndex_nth: "k < length xs \<Longrightarrow> withIndex xs ! k = (xs ! k, k)"
  by (simp add: withIndex_def)

lemma withIndex_length: "length (withIndex xs) = length xs"
  by (simp add: withIndex_def)

lemma graphNodes_ready:
  assumes "neighborhood st = Some nb" "centerId st = Some center" "center \<noteq> []"
    and "entitiesByUrn st center = Some obj"
  shows "length (graphNodes cmp st) = Suc (length (graphNeighborUrns cmp nb center (entitiesByUrn st)))"
    and "k < length (graphNeighborUrns cmp nb center (entitiesByUrn st)) \<Longrightarrow>
         graphNodes cmp st ! Suc k
           = neighborNode nb (entitiesByUrn st)
               (length (graphNeighborUrns cmp nb center (entitiesByUrn st)))
               (graphNeighborUrns cmp nb center (entitiesByUrn st) ! k, k)"
    and "graphNodes cmp st ! 0
           = \<lparr> node_object = Some obj, node_x = svgWidth / 2, node_y = svgHeight / 2,
               node_role = Center \<rparr>"
  using assms by (simp_all add: graphNodes_def Let_def withIndex_nth withIndex_length)

lemma neighborNode_fields:
  "node_object (neighborNode nb cache n (u, k)) = cache u"
  "node_role (neighborNode nb cache n (u, k)) = roleOf nb u"
  "node_x (neighborNode nb cache n (u, k)) = svgWidth / 2 + layoutRadius * cos (neighborAngle k n)"
  "node_y (neighborNode nb cache n (u, k)) = svgHeight / 2 + layoutRadius * sin (neighborAngle k n)"
  by (simp_all add: neighborNode_def)














text \<open>
  C8. Of the nodes the layout produces for the neighbors: a neighbor equal to the
  Neighborhood's previous identifier has role \<open>previous\<close> whether or not it is a parent or
  a dependency; any other neighbor that is both a parent and a dependency has role
  \<open>both\<close>; any other neighbor has role \<open>parent\<close> when it is a parent, and otherwise role
  \<open>dependency\<close>, and is then indeed a dependency.
\<close>

theorem neighbor_roles:
  assumes "neighborhood st = Some nb" "centerId st = Some center" "center \<noteq> []"
    and "entitiesByUrn st center = Some obj"
    and "k < length (graphNeighborUrns cmp nb center (entitiesByUrn st))"
    and "u = graphNeighborUrns cmp nb center (entitiesByUrn st) ! k"
  shows "(previousUrn nb = Some u \<longrightarrow> node_role (graphNodes cmp st ! Suc k) = Previous) \<and>
         (previousUrn nb \<noteq> Some u \<and> u \<in> set (parentUrns nb) \<and> u \<in> set (dependencyUrns nb)
            \<longrightarrow> node_role (graphNodes cmp st ! Suc k) = Both) \<and>
         (previousUrn nb \<noteq> Some u \<and> u \<in> set (parentUrns nb) \<and> u \<notin> set (dependencyUrns nb)
            \<longrightarrow> node_role (graphNodes cmp st ! Suc k) = Parent) \<and>
         (previousUrn nb \<noteq> Some u \<and> u \<notin> set (parentUrns nb)
            \<longrightarrow> node_role (graphNodes cmp st ! Suc k) = Dependency \<and> u \<in> set (dependencyUrns nb))"
proof -
  have role: "node_role (graphNodes cmp st ! Suc k) = roleOf nb u"
    using graphNodes_ready(2) [OF assms(1-4), of k cmp] assms(5,6)
    by (simp add: neighborNode_fields)
  have "u \<in> set (graphNeighborUrns cmp nb center (entitiesByUrn st))"
    using assms(5,6) by simp
  then have "previousUrn nb = Some u \<or> u \<in> set (parentUrns nb) \<or> u \<in> set (dependencyUrns nb)"
    using graphNeighborUrns_members by blast
  then show ?thesis unfolding role by (auto simp: roleOf_def Let_def)
qed


theorem neighbor_roles_witness:
  "neighborhood layoutState = Some layoutNeighborhood \<and>
   centerId layoutState = Some ''urn:li:dataset:c'' \<and>
   entitiesByUrn layoutState ''urn:li:dataset:c'' = Some (placeholderEntity ''urn:li:dataset:c'') \<and>
   graphNeighborUrns codeUnitCompare layoutNeighborhood ''urn:li:dataset:c'' (entitiesByUrn layoutState)
     = [''urn:li:dataset:a'', ''urn:li:dataJob:job1'', ''urn:li:dataset:shared'',
        ''urn:li:dataset:downstream1'', ''urn:li:corpuser:owner1''] \<and>
   previousUrn layoutNeighborhood = Some ''urn:li:dataset:a'' \<and>
   ''urn:li:dataset:a'' \<in> set (parentUrns layoutNeighborhood) \<and>
   ''urn:li:dataset:a'' \<in> set (dependencyUrns layoutNeighborhood) \<and>
   node_role (graphNodes codeUnitCompare layoutState ! 1) = Previous \<and>
   ''urn:li:dataJob:job1'' \<in> set (parentUrns layoutNeighborhood) \<and>
   ''urn:li:dataJob:job1'' \<notin> set (dependencyUrns layoutNeighborhood) \<and>
   node_role (graphNodes codeUnitCompare layoutState ! 2) = Parent \<and>
   ''urn:li:dataset:shared'' \<in> set (parentUrns layoutNeighborhood) \<and>
   ''urn:li:dataset:shared'' \<in> set (dependencyUrns layoutNeighborhood) \<and>
   node_role (graphNodes codeUnitCompare layoutState ! 3) = Both \<and>
   ''urn:li:dataset:downstream1'' \<notin> set (parentUrns layoutNeighborhood) \<and>
   node_role (graphNodes codeUnitCompare layoutState ! 4) = Dependency"
proof -
  let ?ns = "[''urn:li:dataset:a'', ''urn:li:dataJob:job1'', ''urn:li:dataset:shared'',
              ''urn:li:dataset:downstream1'', ''urn:li:corpuser:owner1'']"
  have h1: "neighborhood layoutState = Some layoutNeighborhood" by (simp add: layoutState_def)
  have h2: "centerId layoutState = Some ''urn:li:dataset:c''" by (simp add: layoutState_def)
  have h3: "''urn:li:dataset:c'' \<noteq> []" by simp
  have h4: "entitiesByUrn layoutState ''urn:li:dataset:c'' = Some (placeholderEntity ''urn:li:dataset:c'')"
    by (simp add: layoutState_def layoutCache_def)
  have cache: "entitiesByUrn layoutState = layoutCache" by (simp add: layoutState_def)
  have ns: "graphNeighborUrns codeUnitCompare layoutNeighborhood ''urn:li:dataset:c''
      (entitiesByUrn layoutState) = ?ns"
    unfolding cache by code_simp
  have prev: "previousUrn layoutNeighborhood = Some ''urn:li:dataset:a''"
    by (simp add: layoutNeighborhood_def)
  have par: "parentUrns layoutNeighborhood
      = [''urn:li:dataset:shared'', ''urn:li:dataset:a'', ''urn:li:dataJob:job1'']"
    by (simp add: layoutNeighborhood_def)
  have dep: "dependencyUrns layoutNeighborhood
      = [''urn:li:corpuser:owner1'', ''urn:li:dataset:shared'', ''urn:li:dataset:ghost'',
         ''urn:li:dataset:downstream1'', ''urn:li:dataset:a'']"
    by (simp add: layoutNeighborhood_def)
  have r0: "node_role (graphNodes codeUnitCompare layoutState ! Suc 0) = Previous"
    using neighbor_roles [OF h1 h2 h3 h4, of 0 codeUnitCompare "''urn:li:dataset:a''"] prev
    unfolding ns by simp
  have r1: "node_role (graphNodes codeUnitCompare layoutState ! Suc 1) = Parent"
    using neighbor_roles [OF h1 h2 h3 h4, of 1 codeUnitCompare "''urn:li:dataJob:job1''"] prev
    unfolding ns par dep by simp
  have r2: "node_role (graphNodes codeUnitCompare layoutState ! Suc 2) = Both"
    using neighbor_roles [OF h1 h2 h3 h4, of 2 codeUnitCompare "''urn:li:dataset:shared''"] prev
    unfolding ns par dep by simp
  have r3: "node_role (graphNodes codeUnitCompare layoutState ! Suc 3) = Dependency"
    using neighbor_roles [OF h1 h2 h3 h4, of 3 codeUnitCompare "''urn:li:dataset:downstream1''"] prev
    unfolding ns par dep by simp
  have n: "Suc 0 = 1" "Suc 1 = 2" "Suc 2 = 3" "Suc 3 = 4" by simp_all
  show ?thesis
    using h1 h2 h4 ns prev r0 r1 r2 r3 unfolding n par dep by simp
qed




lemma grouped_sorted:
  assumes "totalPreorder cmp"
  shows "sorted_wrt (\<lambda>a b. cmp a b \<le> 0) (map fst (groupedDependenciesOf cmp nb cache))"
    and "g \<in> set (groupedDependenciesOf cmp nb cache) \<Longrightarrow> sorted_wrt (\<lambda>a b. cmp a b \<le> 0) (snd g)"
proof -
  show "sorted_wrt (\<lambda>a b. cmp a b \<le> 0) (map fst (groupedDependenciesOf cmp nb cache))"
    using jsSort_sorted [OF assms] by (simp add: grouped_dependencies_spec comp_def)
  show "sorted_wrt (\<lambda>a b. cmp a b \<le> 0) (snd g)" if "g \<in> set (groupedDependenciesOf cmp nb cache)"
    using that jsSort_sorted [OF assms] by (auto simp: grouped_dependencies_spec)
qed







section \<open>States published by navigation actions\<close>

text \<open>
  Every identifier on the navigation stack was a resolved center and was merged into the
  cache with it. So in the states that navigation actions produce, the previous
  identifier of the published Neighborhood is in the cache, and the layout's unguarded
  read of the cache for the previous identifier finds an entity.
\<close>

lemma slice_subset: "set (slice xs a b) \<subseteq> set xs"
  unfolding slice_def by (meson in_set_dropD in_set_takeD subsetI)

lemma getNextNavigationStack_subset:
  "set (getNextNavigationStack s t m i) \<subseteq> insert t (set s)"
proof -
  have sl: "x \<in> set (slice ys 0 k) \<Longrightarrow> x \<in> set ys" for x k and ys :: "string list"
    using slice_subset [of ys 0 k] by blast
  show ?thesis
    by (auto simp: getNextNavigationStack_def Let_def split: option.splits dest!: sl)
qed

lemma previousUrnOf_member: "previousUrnOf s = Some p \<Longrightarrow> p \<in> set s"
  by (auto simp: previousUrnOf_def split: if_splits)

lemma fold_cachePut_dom: "dom (fold cachePut es m) = dom m \<union> obj_id ` set es"
  by (induction es arbitrary: m) (auto simp: cachePut_def)

lemma mergeEntities_dom:
  "dom (mergeEntities cache c es) = insert (obj_id c) (dom cache) \<union> obj_id ` set es"
  by (auto simp: mergeEntities_def fold_cachePut_dom cachePut_def)

lemma committedAction_stack_within_cache:
  assumes "set (navStack st) \<subseteq> dom (entitiesByUrn st)"
  shows "set (navStack (committedAction fetch token baseUrl st c inc out mode idx))
           \<subseteq> dom (entitiesByUrn (committedAction fetch token baseUrl st c inc out mode idx))"
  unfolding committedAction_fields mergeEntities_dom
  using getNextNavigationStack_subset [of "navStack st" "obj_id c" mode idx] assms by blast

lemma stack_within_cache_preserved:
  assumes "set (navStack st) \<subseteq> dom (entitiesByUrn st)"
  shows "set (navStack (loadNeighborhood fetch race token baseUrl st urn optMode idx))
           \<subseteq> dom (entitiesByUrn (loadNeighborhood fetch race token baseUrl st urn optMode idx))"
proof -
  let ?loading = "st\<lparr> isLoading := True, inputError := [] \<rparr>"
  have l: "set (navStack ?loading) \<subseteq> dom (entitiesByUrn ?loading)" using assms by simp
  have f: "set (navStack (failedAction ?loading e)) \<subseteq> dom (entitiesByUrn (failedAction ?loading e))"
    for e using assms by (simp add: failedAction_frame)
  show ?thesis
    using assms f committedAction_stack_within_cache [OF l]
    by (simp add: loadNeighborhood_def Let_def split: sum.splits)
qed

lemma published_previous_is_cached:
  assumes "trim urn \<noteq> []"
    and "fetchEntity fetch token baseUrl (trim urn) = Inr c"
    and "fetchRelationships fetch token baseUrl (obj_id c) INCOMING = Inr inc"
    and "fetchRelationships fetch token baseUrl (obj_id c) OUTGOING = Inr out"
    and "set (navStack st) \<subseteq> dom (entitiesByUrn st)"
    and "neighborhood (loadNeighborhood fetch race token baseUrl st urn optMode idx) = Some nb"
    and "previousUrn nb = Some p"
  shows "inCache (entitiesByUrn (loadNeighborhood fetch race token baseUrl st urn optMode idx)) p"
proof -
  let ?st' = "loadNeighborhood fetch race token baseUrl st urn optMode idx"
  note eq = loadNeighborhood_success [OF assms(1-4), of race st optMode idx]
  have "previousUrn nb = previousUrnOf (navStack ?st')"
    using assms(6) unfolding eq committedAction_fields by auto
  with assms(7) have "p \<in> set (navStack ?st')" by (simp add: previousUrnOf_member)
  with stack_within_cache_preserved [OF assms(5), of fetch race token baseUrl urn optMode idx]
  show ?thesis by (auto simp: inCache_def)
qed

lemma published_neighbors_are_cached:
  assumes "trim urn \<noteq> []"
    and "fetchEntity fetch token baseUrl (trim urn) = Inr c"
    and "fetchRelationships fetch token baseUrl (obj_id c) INCOMING = Inr inc"
    and "fetchRelationships fetch token baseUrl (obj_id c) OUTGOING = Inr out"
    and "set (navStack st) \<subseteq> dom (entitiesByUrn st)"
    and "neighborhood (loadNeighborhood fetch race token baseUrl st urn optMode idx) = Some nb"
    and "u \<in> set (graphNeighborUrns cmp nb center
                    (entitiesByUrn (loadNeighborhood fetch race token baseUrl st urn optMode idx)))"
  shows "inCache (entitiesByUrn (loadNeighborhood fetch race token baseUrl st urn optMode idx)) u"
  using graphNeighborUrns_members [OF assms(7)] published_previous_is_cached [OF assms(1-6)]
  by blast

text \<open>
  The read of the cache for the previous identifier is the one read the layout makes
  without a test. In a state with a previous identifier outside the cache, which by the
  lemmas above no navigation action publishes, the layout has a node without an object.
\<close>

lemma unguarded_previous_read:
  "graphNeighborUrns codeUnitCompare uncachedPreviousNeighborhood ''urn:li:dataset:c''
     (entitiesByUrn uncachedPreviousState) = [''urn:li:dataset:p''] \<and>
   \<not> inCache (entitiesByUrn uncachedPreviousState) ''urn:li:dataset:p'' \<and>
   map node_object (graphNodes codeUnitCompare uncachedPreviousState)
     = [Some (placeholderEntity ''urn:li:dataset:c''), None] \<and>
   map node_role (graphNodes codeUnitCompare uncachedPreviousState) = [Center, Previous]"
proof -
  have cache: "entitiesByUrn uncachedPreviousState
      = [''urn:li:dataset:c'' \<mapsto> placeholderEntity ''urn:li:dataset:c'']"
    by (simp add: uncachedPreviousState_def)
  have ns: "graphNeighborUrns codeUnitCompare uncachedPreviousNeighborhood ''urn:li:dataset:c''
      (entitiesByUrn uncachedPreviousState) = [''urn:li:dataset:p'']"
    by (simp add: graphNeighborUrns_def Let_def groupedDependenciesOf_def dependencyGroupsOf_def
        sortedParentsOf_def plottable_def jsSort_def distinctPrevious_def setFrom_def setAdd_def
        uncachedPreviousNeighborhood_def)
  have nc: "\<not> inCache (entitiesByUrn uncachedPreviousState) ''urn:li:dataset:p''"
    unfolding cache by (simp add: inCache_def)
  have nodes: "graphNodes codeUnitCompare uncachedPreviousState
      = [\<lparr> node_object = Some (placeholderEntity ''urn:li:dataset:c''), node_x = svgWidth / 2,
            node_y = svgHeight / 2, node_role = Center \<rparr>,
         neighborNode uncachedPreviousNeighborhood (entitiesByUrn uncachedPreviousState) 1
           (''urn:li:dataset:p'', 0)]"
    unfolding graphNodes_def
    by (simp add: uncachedPreviousState_def Let_def withIndex_def ns [unfolded cache])
  have role: "roleOf uncachedPreviousNeighborhood ''urn:li:dataset:p'' = Previous"
    by (simp add: roleOf_def uncachedPreviousNeighborhood_def)
  show ?thesis
    using ns nc role unfolding nodes by (simp add: neighborNode_fields cache)
qed

end
